theory Spec2Isabelle
  imports Main "HOL-Library.AList"
begin

section \<open>Values held behind Go's empty interface\<close>

text \<open>
  Attributes, properties and message payloads are \<^verbatim>\<open>interface{}\<close> values: nil, or
  a value together with its dynamic type. The types modelled are bool, int, float64,
  string, pointers, and the func, slice, map, array and struct types built over these
  and over \<^verbatim>\<open>interface{}\<close> as an element type. \<open>TNil\<close> stands for the missing
  dynamic type of the nil interface. The other numeric types compare like int, channels
  like pointers; defined (named) types are left out.
\<close>

datatype GoType =
    TNil
  | TBool
  | TInt
  | TFloat64
  | TString
  | TInterface
  | TPointer GoType
  | TFunc "GoType list" "GoType list"
  | TSlice GoType
  | TMap GoType GoType
  | TArray nat GoType
  | TStruct "GoType list"

text \<open>
  A float64 is its IEEE 754 encoding: sign, biased exponent (11 bits) and fraction
  (52 bits). \<^verbatim>\<open>==\<close> on float64 makes a NaN differ from everything, itself included,
  and makes the two zeros equal.
\<close>

datatype float64 = Float64 bool nat nat

fun is_NaN :: "float64 \<Rightarrow> bool" where
  "is_NaN (Float64 s e f) = (e = 2047 \<and> f \<noteq> 0)"

fun is_zero :: "float64 \<Rightarrow> bool" where
  "is_zero (Float64 s e f) = (e = 0 \<and> f = 0)"

definition float64_eq :: "float64 \<Rightarrow> float64 \<Rightarrow> bool" where
  "float64_eq x y = (\<not> is_NaN x \<and> \<not> is_NaN y \<and> (x = y \<or> is_zero x \<and> is_zero y))"

text \<open>
  A slice, map or array carries its element type, a struct its field types; the
  elements of a container whose element type is \<open>TInterface\<close> are interface values
  again, of any dynamic type.
\<close>

datatype Value =
    VNil
  | VBool bool
  | VInt int
  | VFloat64 float64
  | VString string
  | VPointer GoType nat
  | VFunc "GoType list" "GoType list"
  | VSlice GoType "Value list"
  | VMap GoType GoType "(Value \<times> Value) list"
  | VArray GoType "Value list"
  | VStruct "GoType list" "Value list"

fun dyn_type :: "Value \<Rightarrow> GoType" where
  "dyn_type VNil = TNil"
| "dyn_type (VBool b) = TBool"
| "dyn_type (VInt i) = TInt"
| "dyn_type (VFloat64 x) = TFloat64"
| "dyn_type (VString s) = TString"
| "dyn_type (VPointer t p) = TPointer t"
| "dyn_type (VFunc ins outs) = TFunc ins outs"
| "dyn_type (VSlice t xs) = TSlice t"
| "dyn_type (VMap k t kvs) = TMap k t"
| "dyn_type (VArray t xs) = TArray (length xs) t"
| "dyn_type (VStruct ts xs) = TStruct ts"

text \<open>
  The comparable types of the language: func, slice and map types are not, an array
  or struct type is when its element or field types are, every other type is, the
  interface type included.
\<close>

fun comparable :: "GoType \<Rightarrow> bool" where
  "comparable (TFunc ins outs) = False"
| "comparable (TSlice t) = False"
| "comparable (TMap k t) = False"
| "comparable (TArray n t) = comparable t"
| "comparable (TStruct ts) = list_all comparable ts"
| "comparable t = True"

datatype panic =
    AssignToNilMap
  | UncomparableType GoType
  | SendOnClosedChannel
  | CloseOfClosedChannel

fun float_of :: "Value \<Rightarrow> float64" where
  "float_of (VFloat64 x) = x"
| "float_of v = Float64 False 0 0"

fun elems :: "Value \<Rightarrow> Value list" where
  "elems (VArray t xs) = xs"
| "elems (VStruct ts xs) = xs"
| "elems v = []"

text \<open>
  \<^verbatim>\<open>a == b\<close> on two interface values. Values of different dynamic types are unequal.
  Values of one dynamic type are compared by that type's equality, and the comparison
  panics when the type is not comparable. Arrays and structs are compared element by
  element in order, stopping at the first pair that differs; an element pair is compared
  as interface values, which for elements of one concrete type is that type's equality
  and for elements of interface type can panic in turn.
\<close>

fun iface_eq :: "Value \<Rightarrow> Value \<Rightarrow> panic + bool"
  and elems_eq :: "Value list \<Rightarrow> Value list \<Rightarrow> panic + bool" where
  "iface_eq a b =
     (if dyn_type a \<noteq> dyn_type b then Inr False
      else if \<not> comparable (dyn_type a) then Inl (UncomparableType (dyn_type a))
      else (case a of
              VFloat64 x \<Rightarrow> Inr (float64_eq x (float_of b))
            | VArray t xs \<Rightarrow> elems_eq xs (elems b)
            | VStruct ts xs \<Rightarrow> elems_eq xs (elems b)
            | _ \<Rightarrow> Inr (a = b)))"
| "elems_eq [] ys = Inr (ys = [])"
| "elems_eq (x # xs) ys =
     (case ys of
        [] \<Rightarrow> Inr False
      | y # ys' \<Rightarrow>
          (case iface_eq x y of
             Inl p \<Rightarrow> Inl p
           | Inr eq \<Rightarrow> if eq then elems_eq xs ys' else Inr False))"

section \<open>FeatureState (package twin)\<close>

text \<open>
  A Go map is a reference: copying a struct that holds one copies the reference, not the
  entries. The property maps therefore live in a store, and a FeatureState holds their
  addresses; \<open>None\<close> is the nil map of a zero-value struct. \<^verbatim>\<open>time.Now()\<close> is the
  argument \<open>now\<close> of every operation that reads the clock. The mutex is not modelled:
  the operations are taken one at a time.
\<close>

type_synonym Time = nat
type_synonym ref = nat
type_synonym props = "string \<rightharpoonup> Value"

record store =
  cells :: "ref \<Rightarrow> props"
  next_ref :: ref

record FeatureState =
  Properties :: "ref option"
  DesiredProps :: "ref option"
  Definition :: "string list"
  LastModified :: Time

definition make_map :: "store \<Rightarrow> ref \<times> store" where
  "make_map h = (next_ref h, h\<lparr>cells := (cells h)(next_ref h := Map.empty), next_ref := Suc (next_ref h)\<rparr>)"

definition map_index :: "store \<Rightarrow> ref option \<Rightarrow> string \<Rightarrow> Value \<times> bool" where
  "map_index h m key =
     (case m of
        None \<Rightarrow> (VNil, False)
      | Some r \<Rightarrow> (case cells h r key of None \<Rightarrow> (VNil, False) | Some v \<Rightarrow> (v, True)))"

definition map_assign :: "store \<Rightarrow> ref option \<Rightarrow> string \<Rightarrow> Value \<Rightarrow> panic + store" where
  "map_assign h m key v =
     (case m of
        None \<Rightarrow> Inl AssignToNilMap
      | Some r \<Rightarrow> Inr (h\<lparr>cells := (cells h)(r := (cells h r)(key \<mapsto> v))\<rparr>))"

definition map_delete :: "store \<Rightarrow> ref option \<Rightarrow> string \<Rightarrow> store" where
  "map_delete h m key =
     (case m of
        None \<Rightarrow> h
      | Some r \<Rightarrow> h\<lparr>cells := (cells h)(r := (cells h r)(key := None))\<rparr>)"

definition zero_FeatureState :: FeatureState where
  "zero_FeatureState = \<lparr>Properties = None, DesiredProps = None, Definition = [], LastModified = 0\<rparr>"

definition NewFeatureState :: "Time \<Rightarrow> store \<Rightarrow> FeatureState \<times> store" where
  "NewFeatureState now h =
     (let (p, h1) = make_map h; (d, h2) = make_map h1
      in (\<lparr>Properties = Some p, DesiredProps = Some d, Definition = [], LastModified = now\<rparr>, h2))"

definition GetProperty :: "FeatureState \<Rightarrow> store \<Rightarrow> string \<Rightarrow> Value \<times> bool" where
  "GetProperty fs h key = map_index h (Properties fs) key"

definition SetProperty :: "Time \<Rightarrow> string \<Rightarrow> Value \<Rightarrow> FeatureState \<Rightarrow> store \<Rightarrow> panic + (FeatureState \<times> store)" where
  "SetProperty now key v fs h =
     (case map_assign h (Properties fs) key v of
        Inl p \<Rightarrow> Inl p
      | Inr h' \<Rightarrow> Inr (fs\<lparr>LastModified := now\<rparr>, h'))"

definition RemoveProperty :: "Time \<Rightarrow> string \<Rightarrow> FeatureState \<Rightarrow> store \<Rightarrow> FeatureState \<times> store" where
  "RemoveProperty now key fs h = (fs\<lparr>LastModified := now\<rparr>, map_delete h (Properties fs) key)"

definition GetDesiredProperty :: "FeatureState \<Rightarrow> store \<Rightarrow> string \<Rightarrow> Value \<times> bool" where
  "GetDesiredProperty fs h key = map_index h (DesiredProps fs) key"

definition SetDesiredProperty :: "Time \<Rightarrow> string \<Rightarrow> Value \<Rightarrow> FeatureState \<Rightarrow> store \<Rightarrow> panic + (FeatureState \<times> store)" where
  "SetDesiredProperty now key v fs h =
     (case map_assign h (DesiredProps fs) key v of
        Inl p \<Rightarrow> Inl p
      | Inr h' \<Rightarrow> Inr (fs\<lparr>LastModified := now\<rparr>, h'))"

definition RemoveDesiredProperty :: "Time \<Rightarrow> string \<Rightarrow> FeatureState \<Rightarrow> store \<Rightarrow> FeatureState \<times> store" where
  "RemoveDesiredProperty now key fs h = (fs\<lparr>LastModified := now\<rparr>, map_delete h (DesiredProps fs) key)"

definition FeatureState_SetDefinition :: "Time \<Rightarrow> string list \<Rightarrow> FeatureState \<Rightarrow> FeatureState" where
  "FeatureState_SetDefinition now definitions fs = fs\<lparr>Definition := definitions, LastModified := now\<rparr>"

definition FeatureState_GetDefinition :: "FeatureState \<Rightarrow> string list" where
  "FeatureState_GetDefinition fs = Definition fs"

section \<open>DigitalTwin (package twin)\<close>

datatype twin_error = ErrFeatureNotFound | ErrFeatureAlreadyExists | ErrPropertyNotFound | ErrInvalidValue

text \<open>
  A twin is reached through a pointer and built by \<open>NewDigitalTwin\<close> only, which
  makes both of its maps. Its operations are state passing: each takes the twin and
  returns it updated. \<open>Features\<close> stores FeatureState structs by value, so an entry is
  a record holding the addresses of its two property maps.
\<close>

record DigitalTwin =
  ID :: string
  Type :: string
  TwinDefinition :: string
  Attributes :: "string \<rightharpoonup> Value"
  Features :: "string \<rightharpoonup> FeatureState"
  CreatedAt :: Time
  ModifiedAt :: Time

definition NewDigitalTwin :: "Time \<Rightarrow> string \<Rightarrow> string \<Rightarrow> DigitalTwin" where
  "NewDigitalTwin now id' twinType =
     \<lparr>ID = id', Type = twinType, TwinDefinition = [], Attributes = Map.empty,
      Features = Map.empty, CreatedAt = now, ModifiedAt = now\<rparr>"

definition GetAttribute :: "DigitalTwin \<Rightarrow> string \<Rightarrow> Value \<times> bool" where
  "GetAttribute dt key = (case Attributes dt key of None \<Rightarrow> (VNil, False) | Some v \<Rightarrow> (v, True))"

definition SetAttribute :: "Time \<Rightarrow> string \<Rightarrow> Value \<Rightarrow> DigitalTwin \<Rightarrow> DigitalTwin" where
  "SetAttribute now key v dt = dt\<lparr>Attributes := (Attributes dt)(key \<mapsto> v), ModifiedAt := now\<rparr>"

definition RemoveAttribute :: "Time \<Rightarrow> string \<Rightarrow> DigitalTwin \<Rightarrow> DigitalTwin" where
  "RemoveAttribute now key dt = dt\<lparr>Attributes := (Attributes dt)(key := None), ModifiedAt := now\<rparr>"

definition GetFeature :: "DigitalTwin \<Rightarrow> string \<Rightarrow> FeatureState \<times> bool" where
  "GetFeature dt id' = (case Features dt id' of None \<Rightarrow> (zero_FeatureState, False) | Some feature \<Rightarrow> (feature, True))"

definition AddFeature :: "Time \<Rightarrow> string \<Rightarrow> FeatureState \<Rightarrow> DigitalTwin \<Rightarrow> twin_error option \<times> DigitalTwin" where
  "AddFeature now id' feature dt =
     (if Features dt id' \<noteq> None then (Some ErrFeatureAlreadyExists, dt)
      else (None, dt\<lparr>Features := (Features dt)(id' \<mapsto> feature), ModifiedAt := now\<rparr>))"

definition UpdateFeature :: "Time \<Rightarrow> string \<Rightarrow> FeatureState \<Rightarrow> DigitalTwin \<Rightarrow> twin_error option \<times> DigitalTwin" where
  "UpdateFeature now id' feature dt =
     (if Features dt id' = None then (Some ErrFeatureNotFound, dt)
      else (None, dt\<lparr>Features := (Features dt)(id' \<mapsto> feature), ModifiedAt := now\<rparr>))"

definition RemoveFeature :: "Time \<Rightarrow> string \<Rightarrow> DigitalTwin \<Rightarrow> twin_error option \<times> DigitalTwin" where
  "RemoveFeature now id' dt =
     (if Features dt id' = None then (Some ErrFeatureNotFound, dt)
      else (None, dt\<lparr>Features := (Features dt)(id' := None), ModifiedAt := now\<rparr>))"

section \<open>Registry (package registry)\<close>

datatype registry_error = ErrTwinNotFound | ErrTwinAlreadyExists

text \<open>
  \<open>twins\<close> is the map from id to twin, kept as an association list because the two
  scans range over it. The Go map holds pointers; an entry here is the twin its pointer
  leads to when the operation runs. Go ranges over a map in no fixed order; the scans here follow the
  list, and what is proved about their results is about the set of twins returned. Go's
  map has one entry per key: \<open>registry_ok\<close>.
\<close>

record Registry =
  twins :: "(string \<times> DigitalTwin) list"

definition registry_ok :: "Registry \<Rightarrow> bool" where
  "registry_ok r = distinct (map fst (twins r))"

definition NewRegistry :: Registry where
  "NewRegistry = \<lparr>twins = []\<rparr>"

definition Create :: "DigitalTwin \<Rightarrow> Registry \<Rightarrow> registry_error option \<times> Registry" where
  "Create dt r =
     (if map_of (twins r) (ID dt) \<noteq> None then (Some ErrTwinAlreadyExists, r)
      else (None, r\<lparr>twins := AList.update (ID dt) dt (twins r)\<rparr>))"

definition Get :: "Registry \<Rightarrow> string \<Rightarrow> DigitalTwin option \<times> registry_error option" where
  "Get r id' = (case map_of (twins r) id' of None \<Rightarrow> (None, Some ErrTwinNotFound) | Some dt \<Rightarrow> (Some dt, None))"

definition Update :: "DigitalTwin \<Rightarrow> Registry \<Rightarrow> registry_error option \<times> Registry" where
  "Update dt r =
     (if map_of (twins r) (ID dt) = None then (Some ErrTwinNotFound, r)
      else (None, r\<lparr>twins := AList.update (ID dt) dt (twins r)\<rparr>))"

definition Delete :: "string \<Rightarrow> Registry \<Rightarrow> registry_error option \<times> Registry" where
  "Delete id' r =
     (if map_of (twins r) id' = None then (Some ErrTwinNotFound, r)
      else (None, r\<lparr>twins := AList.delete id' (twins r)\<rparr>))"

definition List_twins :: "Registry \<Rightarrow> DigitalTwin list" where
  "List_twins r = map snd (twins r)"

fun FindByAttribute_scan :: "(string \<times> DigitalTwin) list \<Rightarrow> string \<Rightarrow> Value \<Rightarrow> DigitalTwin list \<Rightarrow> panic + DigitalTwin list" where
  "FindByAttribute_scan [] key v result = Inr result"
| "FindByAttribute_scan ((id', dt) # rest) key v result =
     (case GetAttribute dt key of
        (attrValue, exists) \<Rightarrow>
          if exists then
            (case iface_eq attrValue v of
               Inl p \<Rightarrow> Inl p
             | Inr eq \<Rightarrow> FindByAttribute_scan rest key v (if eq then result @ [dt] else result))
          else FindByAttribute_scan rest key v result)"

definition FindByAttribute :: "Registry \<Rightarrow> string \<Rightarrow> Value \<Rightarrow> panic + DigitalTwin list" where
  "FindByAttribute r key v = FindByAttribute_scan (twins r) key v []"

fun FindByFeature_scan :: "(string \<times> DigitalTwin) list \<Rightarrow> string \<Rightarrow> DigitalTwin list \<Rightarrow> DigitalTwin list" where
  "FindByFeature_scan [] featureID result = result"
| "FindByFeature_scan ((id', dt) # rest) featureID result =
     (case GetFeature dt featureID of
        (feature, exists) \<Rightarrow> FindByFeature_scan rest featureID (if exists then result @ [dt] else result))"

definition FindByFeature :: "Registry \<Rightarrow> string \<Rightarrow> DigitalTwin list" where
  "FindByFeature r featureID = FindByFeature_scan (twins r) featureID []"

text \<open>
  Whether the scan meets a comparison that panics: some entry holds, under \<open>key\<close>, a
  value whose comparison with the query value panics.
\<close>

definition comparison_panics :: "(string \<times> DigitalTwin) list \<Rightarrow> string \<Rightarrow> Value \<Rightarrow> bool" where
  "comparison_panics al key v =
     list_ex (\<lambda>(id', dt). case Attributes dt key of
                             None \<Rightarrow> False
                           | Some a \<Rightarrow> isl (iface_eq a v)) al"

section \<open>PubSub (package messaging_sim)\<close>

text \<open>
  A channel is shared between the bus and the subscriber that holds it, so channels live
  in a store and the bus keeps their handles. The record \<open>bus\<close> is the PubSub struct
  (its one data field \<open>subscribers\<close>, an association list because \<open>Close\<close> ranges
  over it) together with that store. A buffered channel is its queue, its capacity and
  whether it has been closed.
\<close>

record Message =
  Topic :: string
  Payload :: Value

type_synonym chan = nat

record channel =
  queue :: "Message list"
  cap :: nat
  closed :: bool

record bus =
  subscribers :: "(string \<times> chan list) list"
  chans :: "chan \<Rightarrow> channel"
  next_chan :: chan

definition NewPubSub :: bus where
  "NewPubSub = \<lparr>subscribers = [], chans = (\<lambda>c. \<lparr>queue = [], cap = 0, closed = False\<rparr>), next_chan = 0\<rparr>"

definition make_chan :: "nat \<Rightarrow> bus \<Rightarrow> chan \<times> bus" where
  "make_chan n s =
     (next_chan s,
      s\<lparr>chans := (chans s)(next_chan s := \<lparr>queue = [], cap = n, closed = False\<rparr>),
        next_chan := Suc (next_chan s)\<rparr>)"

text \<open>Indexing the map with a topic it does not hold gives the nil slice.\<close>

definition subs_of :: "(string \<times> chan list) list \<Rightarrow> string \<Rightarrow> chan list" where
  "subs_of m topic = (case map_of m topic of None \<Rightarrow> [] | Some subs \<Rightarrow> subs)"

definition Subscribe :: "string \<Rightarrow> bus \<Rightarrow> chan \<times> bus" where
  "Subscribe topic s =
     (let (ch, s1) = make_chan 10 s
      in (ch, s1\<lparr>subscribers := AList.update topic (subs_of (subscribers s1) topic @ [ch]) (subscribers s1)\<rparr>))"

text \<open>
  The loop of \<open>Unsubscribe\<close> cuts the first element equal to \<open>ch\<close> out of the slice and
  stops, which is \<^const>\<open>remove1\<close>; the test after it reads the map again.
\<close>

definition Unsubscribe :: "string \<Rightarrow> chan \<Rightarrow> bus \<Rightarrow> bus" where
  "Unsubscribe topic ch s =
     (case map_of (subscribers s) topic of
        None \<Rightarrow> s
      | Some subs \<Rightarrow>
          (let s1 = (if ch \<in> set subs
                     then s\<lparr>subscribers := AList.update topic (remove1 ch subs) (subscribers s)\<rparr>
                     else s)
           in if length (subs_of (subscribers s1) topic) = 0
              then s1\<lparr>subscribers := AList.delete topic (subscribers s1)\<rparr>
              else s1))"

text \<open>
  \<^verbatim>\<open>select { case ch <- msg: default: }\<close>: the send goes through when the buffer has
  room, the default branch is taken when it is full, and a send on a closed channel
  panics.
\<close>

definition try_send :: "chan \<Rightarrow> Message \<Rightarrow> bus \<Rightarrow> panic + bus" where
  "try_send ch msg s =
     (let c = chans s ch
      in if closed c then Inl SendOnClosedChannel
         else if length (queue c) < cap c
              then Inr (s\<lparr>chans := (chans s)(ch := c\<lparr>queue := queue c @ [msg]\<rparr>)\<rparr>)
              else Inr s)"

fun send_all :: "chan list \<Rightarrow> Message \<Rightarrow> bus \<Rightarrow> panic + bus" where
  "send_all [] msg s = Inr s"
| "send_all (ch # subs) msg s =
     (case try_send ch msg s of Inl p \<Rightarrow> Inl p | Inr s' \<Rightarrow> send_all subs msg s')"

definition Publish :: "string \<Rightarrow> Value \<Rightarrow> bus \<Rightarrow> panic + bus" where
  "Publish topic payload s =
     (case map_of (subscribers s) topic of
        None \<Rightarrow> Inr s
      | Some subs \<Rightarrow> send_all subs \<lparr>Topic = topic, Payload = payload\<rparr> s)"

definition close_chan :: "chan \<Rightarrow> bus \<Rightarrow> panic + bus" where
  "close_chan ch s =
     (if closed (chans s ch) then Inl CloseOfClosedChannel
      else Inr (s\<lparr>chans := (chans s)(ch := (chans s ch)\<lparr>closed := True\<rparr>)\<rparr>))"

fun close_all :: "chan list \<Rightarrow> bus \<Rightarrow> panic + bus" where
  "close_all [] s = Inr s"
| "close_all (ch # subs) s =
     (case close_chan ch s of Inl p \<Rightarrow> Inl p | Inr s' \<Rightarrow> close_all subs s')"

fun Close_range :: "(string \<times> chan list) list \<Rightarrow> bus \<Rightarrow> panic + bus" where
  "Close_range [] s = Inr s"
| "Close_range ((topic, subs) # rest) s =
     (case close_all subs s of
        Inl p \<Rightarrow> Inl p
      | Inr s' \<Rightarrow> Close_range rest (s'\<lparr>subscribers := AList.delete topic (subscribers s')\<rparr>))"

definition Close :: "bus \<Rightarrow> panic + bus" where
  "Close s = Close_range (subscribers s) s"

text \<open>A run of \<open>Publish\<close> calls on one topic, one per payload, with nothing in between.\<close>

fun Publish_each :: "string \<Rightarrow> Value list \<Rightarrow> bus \<Rightarrow> panic + bus" where
  "Publish_each topic [] s = Inr s"
| "Publish_each topic (p # payloads) s =
     (case Publish topic p s of Inl e \<Rightarrow> Inl e | Inr s' \<Rightarrow> Publish_each topic payloads s')"

text \<open>
  The states the bus reaches through its own operations: one entry per topic, no topic
  with an empty subscriber list, and every subscribed channel allocated, open, and
  subscribed once.
\<close>

definition handles :: "(string \<times> chan list) list \<Rightarrow> chan list" where
  "handles m = concat (map snd m)"

definition topics_nonempty :: "bus \<Rightarrow> bool" where
  "topics_nonempty s = list_all (\<lambda>(topic, subs). subs \<noteq> []) (subscribers s)"

definition bus_ok :: "bus \<Rightarrow> bool" where
  "bus_ok s \<longleftrightarrow>
     distinct (map fst (subscribers s))
     \<and> topics_nonempty s
     \<and> distinct (handles (subscribers s))
     \<and> list_all (\<lambda>ch. ch < next_chan s \<and> \<not> closed (chans s ch)) (handles (subscribers s))"

section \<open>Example states\<close>

definition example_twin :: DigitalTwin where
  "example_twin = SetAttribute 2 ''location'' (VString ''kitchen'') (NewDigitalTwin 1 ''t1'' ''sensor'')"

definition example_registry :: Registry where
  "example_registry = snd (Create example_twin NewRegistry)"

definition tagged_twin :: DigitalTwin where
  "tagged_twin = SetAttribute 2 ''tags'' (VSlice TInterface [VString ''a'']) (NewDigitalTwin 1 ''t3'' ''sensor'')"

definition tagged_registry :: Registry where
  "tagged_registry = snd (Create tagged_twin NewRegistry)"

definition empty_store :: store where
  "empty_store = \<lparr>cells = (\<lambda>r. Map.empty), next_ref = 0\<rparr>"

definition fresh_feature :: FeatureState where
  "fresh_feature = fst (NewFeatureState 1 empty_store)"

definition fresh_store :: store where
  "fresh_store = snd (NewFeatureState 1 empty_store)"

definition thermo_twin :: DigitalTwin where
  "thermo_twin = snd (AddFeature 2 ''temp'' fresh_feature (NewDigitalTwin 0 ''t1'' ''thermostat''))"

definition thermo_write :: "panic + (FeatureState \<times> store)" where
  "thermo_write = SetProperty 3 ''value'' (VInt 22) (fst (GetFeature thermo_twin ''temp'')) fresh_store"

definition living_twin :: DigitalTwin where
  "living_twin =
     snd (AddFeature 5 ''temperature'' fresh_feature
       (SetAttribute 4 ''setpoint'' (VFloat64 (Float64 False 1027 1829587348619264))
         (SetAttribute 3 ''manufacturer'' (VString ''ACME'')
           (SetAttribute 2 ''location'' (VString ''living-room'') (NewDigitalTwin 1 ''twin-1'' ''sensor'')))))"

definition bedroom_twin :: DigitalTwin where
  "bedroom_twin =
     snd (AddFeature 5 ''temperature'' fresh_feature
       (SetAttribute 3 ''manufacturer'' (VString ''ACME'')
         (SetAttribute 2 ''location'' (VString ''bedroom'') (NewDigitalTwin 1 ''twin-2'' ''sensor''))))"

definition kitchen_twin :: DigitalTwin where
  "kitchen_twin =
     snd (AddFeature 5 ''switch'' fresh_feature
       (SetAttribute 3 ''manufacturer'' (VString ''XYZ'')
         (SetAttribute 2 ''location'' (VString ''kitchen'') (NewDigitalTwin 1 ''twin-3'' ''actuator''))))"

definition house_registry :: Registry where
  "house_registry =
     snd (Create kitchen_twin (snd (Create bedroom_twin (snd (Create living_twin NewRegistry)))))"

definition example_bus :: bus where
  "example_bus = snd (Subscribe ''twin.created'' NewPubSub)"

section \<open>Properties of the registry and of the twin's feature set\<close>

lemma map_of_update_same: "map_of (AList.update k v al) k = Some v"
  by (simp add: update_conv')

lemma example_twin_ID: "ID example_twin = ''t1''"
  by (simp add: example_twin_def SetAttribute_def NewDigitalTwin_def)

lemma example_registry_twins: "twins example_registry = [(''t1'', example_twin)]"
  by (simp add: example_registry_def Create_def NewRegistry_def example_twin_ID)

text \<open>
  Claim C4. When the registry already holds a twin under the id of \<open>dt\<close>, \<open>Create dt\<close>
  returns \<open>ErrTwinAlreadyExists\<close> and the registry it leaves is the one it was given; a
  \<open>Get\<close> of that id afterwards still returns the twin that was there before.
\<close>

theorem Create_duplicate_rejected:
  assumes "map_of (twins r) (ID dt) = Some old"
  shows "Create dt r = (Some ErrTwinAlreadyExists, r)
       \<and> Get (snd (Create dt r)) (ID dt) = (Some old, None)"
  using assms by (simp add: Create_def Get_def)

theorem Create_duplicate_rejected_witness:
  "map_of (twins example_registry) (ID (NewDigitalTwin 5 ''t1'' ''actuator'')) = Some example_twin
   \<and> Create (NewDigitalTwin 5 ''t1'' ''actuator'') example_registry
        = (Some ErrTwinAlreadyExists, example_registry)"
proof -
  have h: "map_of (twins example_registry) (ID (NewDigitalTwin 5 ''t1'' ''actuator'')) = Some example_twin"
    by (simp add: example_registry_twins NewDigitalTwin_def)
  from Create_duplicate_rejected [OF h] h show ?thesis by simp
qed

text \<open>
  Claim C7. When no twin is registered under \<open>id'\<close>, \<open>Get id'\<close>, \<open>Update\<close> of a twin
  whose ID is \<open>id'\<close>, and \<open>Delete id'\<close> each return \<open>ErrTwinNotFound\<close> (and the two
  writers leave the registry as it was).
\<close>

theorem absent_id_TwinNotFound:
  assumes "map_of (twins r) id' = None" and "ID dt = id'"
  shows "Get r id' = (None, Some ErrTwinNotFound)
       \<and> Update dt r = (Some ErrTwinNotFound, r)
       \<and> Delete id' r = (Some ErrTwinNotFound, r)"
  using assms by (simp add: Get_def Update_def Delete_def)

theorem absent_id_TwinNotFound_witness:
  "Get example_registry ''t2'' = (None, Some ErrTwinNotFound)
   \<and> Update (NewDigitalTwin 7 ''t2'' ''sensor'') example_registry
        = (Some ErrTwinNotFound, example_registry)
   \<and> Delete ''t2'' example_registry = (Some ErrTwinNotFound, example_registry)"
proof -
  have a: "map_of (twins example_registry) ''t2'' = None"
    by (simp add: example_registry_twins)
  have b: "ID (NewDigitalTwin 7 ''t2'' ''sensor'') = ''t2''"
    by (simp add: NewDigitalTwin_def)
  from absent_id_TwinNotFound [OF a b] show ?thesis .
qed

text \<open>
  Claim C9. If \<open>Create\<close> of the twin built by \<open>NewDigitalTwin now id' twinType\<close>
  succeeds, \<open>Get id'\<close> on the resulting registry returns a twin whose ID is \<open>id'\<close>, whose
  Type is \<open>twinType\<close> and whose CreatedAt equals its ModifiedAt.
\<close>

theorem Create_then_Get:
  assumes "Create (NewDigitalTwin now id' twinType) r = (None, r')"
  shows "\<exists>dt. Get r' id' = (Some dt, None) \<and> ID dt = id' \<and> Type dt = twinType
             \<and> CreatedAt dt = ModifiedAt dt"
proof -
  have id_new: "ID (NewDigitalTwin now id' twinType) = id'"
    by (simp add: NewDigitalTwin_def)
  from assms have "r' = r\<lparr>twins := AList.update id' (NewDigitalTwin now id' twinType) (twins r)\<rparr>"
    by (auto simp: Create_def id_new split: if_splits)
  then have "Get r' id' = (Some (NewDigitalTwin now id' twinType), None)"
    by (simp add: Get_def map_of_update_same)
  then show ?thesis
    by (simp add: NewDigitalTwin_def)
qed

theorem Create_then_Get_witness:
  "Create (NewDigitalTwin 3 ''t9'' ''sensor'') example_registry
     = (None, \<lparr>twins = [(''t1'', example_twin), (''t9'', NewDigitalTwin 3 ''t9'' ''sensor'')]\<rparr>)
   \<and> (\<exists>dt. Get \<lparr>twins = [(''t1'', example_twin), (''t9'', NewDigitalTwin 3 ''t9'' ''sensor'')]\<rparr> ''t9''
               = (Some dt, None)
          \<and> ID dt = ''t9'' \<and> Type dt = ''sensor'' \<and> CreatedAt dt = ModifiedAt dt)"
proof -
  have h: "Create (NewDigitalTwin 3 ''t9'' ''sensor'') example_registry
     = (None, \<lparr>twins = [(''t1'', example_twin), (''t9'', NewDigitalTwin 3 ''t9'' ''sensor'')]\<rparr>)"
    by (simp add: Create_def example_registry_twins NewDigitalTwin_def)
  from Create_then_Get [OF h] h show ?thesis by blast
qed

text \<open>
  Claim C8. Whatever the twin, a second \<open>AddFeature\<close> under the id of a first returns
  \<open>ErrFeatureAlreadyExists\<close> and leaves the twin as the first call left it; when the
  first call succeeded, the feature it stored is the one \<open>GetFeature\<close> still returns.
  \<open>UpdateFeature\<close> and \<open>RemoveFeature\<close> on an id the twin does not hold return
  \<open>ErrFeatureNotFound\<close>.
\<close>

theorem feature_id_errors:
  "AddFeature now2 id' f2 (snd (AddFeature now id' f dt))
      = (Some ErrFeatureAlreadyExists, snd (AddFeature now id' f dt))
   \<and> (fst (AddFeature now id' f dt) = None \<longrightarrow>
        GetFeature (snd (AddFeature now2 id' f2 (snd (AddFeature now id' f dt)))) id' = (f, True))
   \<and> (Features dt id' = None \<longrightarrow>
        UpdateFeature now id' f dt = (Some ErrFeatureNotFound, dt)
        \<and> RemoveFeature now id' dt = (Some ErrFeatureNotFound, dt))"
  by (simp add: AddFeature_def UpdateFeature_def RemoveFeature_def GetFeature_def)

theorem feature_id_errors_witness:
  "fst (AddFeature 4 ''temp'' zero_FeatureState example_twin) = None
   \<and> Features example_twin ''temp'' = None
   \<and> fst (AddFeature 5 ''temp'' (zero_FeatureState\<lparr>LastModified := 9\<rparr>)
            (snd (AddFeature 4 ''temp'' zero_FeatureState example_twin)))
        = Some ErrFeatureAlreadyExists
   \<and> GetFeature (snd (AddFeature 5 ''temp'' (zero_FeatureState\<lparr>LastModified := 9\<rparr>)
                        (snd (AddFeature 4 ''temp'' zero_FeatureState example_twin)))) ''temp''
        = (zero_FeatureState, True)
   \<and> UpdateFeature 4 ''temp'' zero_FeatureState example_twin = (Some ErrFeatureNotFound, example_twin)
   \<and> RemoveFeature 4 ''temp'' example_twin = (Some ErrFeatureNotFound, example_twin)"
proof -
  have absent: "Features example_twin ''temp'' = None"
    by (simp add: example_twin_def SetAttribute_def NewDigitalTwin_def)
  then have ok: "fst (AddFeature 4 ''temp'' zero_FeatureState example_twin) = None"
    by (simp add: AddFeature_def)
  note inst = feature_id_errors [of 5 "''temp''" "zero_FeatureState\<lparr>LastModified := 9\<rparr>" 4
      zero_FeatureState example_twin]
  from inst have second: "AddFeature 5 ''temp'' (zero_FeatureState\<lparr>LastModified := 9\<rparr>)
        (snd (AddFeature 4 ''temp'' zero_FeatureState example_twin))
      = (Some ErrFeatureAlreadyExists, snd (AddFeature 4 ''temp'' zero_FeatureState example_twin))"
    by (rule conjunct1)
  from inst ok have kept: "GetFeature (snd (AddFeature 5 ''temp'' (zero_FeatureState\<lparr>LastModified := 9\<rparr>)
        (snd (AddFeature 4 ''temp'' zero_FeatureState example_twin)))) ''temp'' = (zero_FeatureState, True)"
    by blast
  from inst absent have missing: "UpdateFeature 4 ''temp'' zero_FeatureState example_twin
        = (Some ErrFeatureNotFound, example_twin)
      \<and> RemoveFeature 4 ''temp'' example_twin = (Some ErrFeatureNotFound, example_twin)"
    by blast
  from second have "fst (AddFeature 5 ''temp'' (zero_FeatureState\<lparr>LastModified := 9\<rparr>)
        (snd (AddFeature 4 ''temp'' zero_FeatureState example_twin))) = Some ErrFeatureAlreadyExists"
    by (rule arg_cong [where f = fst, THEN trans]) simp
  with ok absent kept missing show ?thesis by blast
qed

section \<open>The two scans of the registry\<close>

subsection \<open>Facts about the comparison\<close>

declare iface_eq.simps [simp del]

lemma iface_eq_differ: "dyn_type a \<noteq> dyn_type b \<Longrightarrow> iface_eq a b = Inr False"
  by (simp add: iface_eq.simps)

lemma iface_eq_uncomparable:
  "dyn_type a = dyn_type b \<Longrightarrow> \<not> comparable (dyn_type a)
     \<Longrightarrow> iface_eq a b = Inl (UncomparableType (dyn_type a))"
  by (simp add: iface_eq.simps)

lemma iface_eq_String: "iface_eq a (VString s) = Inr (a = VString s)"
  by (cases a) (auto simp: iface_eq.simps)

lemma iface_eq_basic_query:
  "dyn_type v \<in> {TNil, TBool, TInt, TFloat64, TString} \<Longrightarrow> \<not> isl (iface_eq a v)"
  by (cases a; cases v) (auto simp: iface_eq.simps)

text \<open>
  A comparable dynamic type does not make the comparison safe: an array of interface
  values that holds a slice has a comparable type, and comparing it with itself panics.
  A NaN stored as an attribute is not equal to the same NaN as a query.
\<close>

lemma comparable_array_comparison_panics:
  "comparable (dyn_type (VArray TInterface [VSlice TInt [VInt 1]]))
   \<and> iface_eq (VArray TInterface [VSlice TInt [VInt 1]]) (VArray TInterface [VSlice TInt [VInt 1]])
        = Inl (UncomparableType (TSlice TInt))"
  by (simp add: iface_eq.simps)

lemma NaN_differs_from_itself:
  "iface_eq (VFloat64 (Float64 False 2047 1)) (VFloat64 (Float64 False 2047 1)) = Inr False"
  by (simp add: iface_eq.simps float64_eq_def)

subsection \<open>The scans\<close>

lemma comparison_panics_iff:
  "comparison_panics al key v \<longleftrightarrow>
     (\<exists>dt \<in> snd ` set al. \<exists>a. Attributes dt key = Some a \<and> isl (iface_eq a v))"
  by (induction al) (auto simp: comparison_panics_def split: option.splits)

lemma comparison_panics_Cons:
  "comparison_panics ((i, dt) # al) key v \<longleftrightarrow>
     (case Attributes dt key of None \<Rightarrow> False | Some a \<Rightarrow> isl (iface_eq a v))
     \<or> comparison_panics al key v"
  by (simp add: comparison_panics_def)

lemma FindByFeature_scan_set:
  "set (FindByFeature_scan al fid res) = set res \<union> {dt \<in> snd ` set al. Features dt fid \<noteq> None}"
proof (induction al arbitrary: res)
  case Nil
  then show ?case by simp
next
  case (Cons e al)
  obtain i dt where e: "e = (i, dt)" by (cases e)
  show ?case
    by (cases "Features dt fid") (auto simp: e Cons.IH GetFeature_def)
qed

lemma FindByAttribute_scan_panics:
  "(\<exists>p. FindByAttribute_scan al key v res = Inl p) \<longleftrightarrow> comparison_panics al key v"
proof (induction al arbitrary: res)
  case Nil
  then show ?case by (simp add: comparison_panics_def)
next
  case (Cons e al)
  obtain i dt where e: "e = (i, dt)" by (cases e)
  show ?case
  proof (cases "Attributes dt key")
    case None
    then show ?thesis
      by (simp add: e comparison_panics_Cons GetAttribute_def Cons.IH)
  next
    case (Some a)
    show ?thesis
    proof (cases "iface_eq a v")
      case (Inl p)
      with Some show ?thesis
        by (simp add: e comparison_panics_Cons GetAttribute_def)
    next
      case (Inr eq)
      with Some show ?thesis
        by (simp add: e comparison_panics_Cons GetAttribute_def Cons.IH)
    qed
  qed
qed

lemma FindByAttribute_scan_set:
  "FindByAttribute_scan al key v res = Inr out \<Longrightarrow>
     set out = set res \<union> {dt \<in> snd ` set al. \<exists>a. Attributes dt key = Some a \<and> iface_eq a v = Inr True}"
proof (induction al arbitrary: res)
  case Nil
  then show ?case by auto
next
  case (Cons e al)
  obtain i dt where e: "e = (i, dt)" by (cases e)
  show ?case
  proof (cases "Attributes dt key")
    case None
    with Cons.prems have "FindByAttribute_scan al key v res = Inr out"
      by (simp add: e GetAttribute_def)
    from Cons.IH [OF this] None show ?thesis
      by (auto simp: e)
  next
    case (Some a)
    show ?thesis
    proof (cases "iface_eq a v")
      case (Inl p)
      with Some Cons.prems show ?thesis
        by (simp add: e GetAttribute_def)
    next
      case (Inr eq)
      with Some Cons.prems
      have "FindByAttribute_scan al key v (if eq then res @ [dt] else res) = Inr out"
        by (simp add: e GetAttribute_def)
      from Cons.IH [OF this] Some Inr show ?thesis
        by (auto simp: e)
    qed
  qed
qed

subsection \<open>Example registries\<close>

lemma tagged_registry_twins: "twins tagged_registry = [(''t3'', tagged_twin)]"
  by (simp add: tagged_registry_def Create_def NewRegistry_def tagged_twin_def SetAttribute_def NewDigitalTwin_def)

lemma tagged_twin_tags: "Attributes tagged_twin ''tags'' = Some (VSlice TInterface [VString ''a''])"
  by (simp add: tagged_twin_def SetAttribute_def)

lemma house_ids: "ID living_twin = ''twin-1''" "ID bedroom_twin = ''twin-2''" "ID kitchen_twin = ''twin-3''"
  by (simp_all add: living_twin_def bedroom_twin_def kitchen_twin_def AddFeature_def SetAttribute_def
      NewDigitalTwin_def)

lemma house_registry_twins:
  "twins house_registry = [(''twin-1'', living_twin), (''twin-2'', bedroom_twin), (''twin-3'', kitchen_twin)]"
  by (simp add: house_registry_def Create_def NewRegistry_def house_ids)

lemma house_manufacturer:
  "Attributes living_twin ''manufacturer'' = Some (VString ''ACME'')"
  "Attributes bedroom_twin ''manufacturer'' = Some (VString ''ACME'')"
  "Attributes kitchen_twin ''manufacturer'' = Some (VString ''XYZ'')"
  by (simp_all add: living_twin_def bedroom_twin_def kitchen_twin_def AddFeature_def SetAttribute_def
      NewDigitalTwin_def)

lemma house_setpoint:
  "Attributes living_twin ''setpoint'' = Some (VFloat64 (Float64 False 1027 1829587348619264))"
  "Attributes bedroom_twin ''setpoint'' = None"
  "Attributes kitchen_twin ''setpoint'' = None"
  by (simp_all add: living_twin_def bedroom_twin_def kitchen_twin_def AddFeature_def SetAttribute_def
      NewDigitalTwin_def)

lemma house_temperature:
  "Features living_twin ''temperature'' = Some fresh_feature"
  "Features bedroom_twin ''temperature'' = Some fresh_feature"
  "Features kitchen_twin ''temperature'' = None"
  by (simp_all add: living_twin_def bedroom_twin_def kitchen_twin_def AddFeature_def SetAttribute_def
      NewDigitalTwin_def)

subsection \<open>What the scans return\<close>

text \<open>
  Claim C3 fails as stated: a query whose value is a slice, against a twin that holds a
  slice of the same type under the same key, does not return; the comparison panics.
\<close>

theorem FindByAttribute_slice_query_panics:
  "registry_ok tagged_registry
   \<and> FindByAttribute tagged_registry ''tags'' (VSlice TInterface [VString ''a''])
        = Inl (UncomparableType (TSlice TInterface))"
  by (simp add: registry_ok_def FindByAttribute_def tagged_registry_twins GetAttribute_def
      tagged_twin_tags iface_eq.simps)

text \<open>
  Claim C3, amended. In every registry state where none of the comparisons between a
  value stored under \<open>key\<close> and the query value panics, \<open>FindByAttribute\<close> returns, and
  the twins it returns are exactly the registered twins whose attribute \<open>key\<close> is present
  and for which the comparison with the query value is true. \<open>FindByFeature\<close> returns, in
  every registry state, exactly the registered twins that hold a feature under the given
  id, whatever the feature contains. A query value that is nil, a bool, an int, a
  float64 or a string makes no comparison panic, in any registry state.
\<close>

theorem find_exact:
  assumes ok: "registry_ok r"
    and np: "\<not> comparison_panics (twins r) key v"
  shows "(\<exists>res. FindByAttribute r key v = Inr res
            \<and> set res = {dt \<in> ran (map_of (twins r)).
                           \<exists>a. Attributes dt key = Some a \<and> iface_eq a v = Inr True})
       \<and> set (FindByFeature r featureID) = {dt \<in> ran (map_of (twins r)). Features dt featureID \<noteq> None}
       \<and> (\<forall>r' q. dyn_type q \<in> {TNil, TBool, TInt, TFloat64, TString}
              \<longrightarrow> \<not> comparison_panics (twins r') key q)"
proof -
  have basic: "\<forall>r' q. dyn_type q \<in> {TNil, TBool, TInt, TFloat64, TString}
              \<longrightarrow> \<not> comparison_panics (twins r') key q"
    using iface_eq_basic_query by (auto simp: comparison_panics_iff)
  from ok have ran: "ran (map_of (twins r)) = snd ` set (twins r)"
    by (simp add: registry_ok_def ran_distinct)
  from np have "\<not> (\<exists>p. FindByAttribute r key v = Inl p)"
    by (simp add: FindByAttribute_def FindByAttribute_scan_panics)
  then obtain res where res: "FindByAttribute r key v = Inr res"
    by (cases "FindByAttribute r key v") auto
  then have "set res = {dt \<in> snd ` set (twins r). \<exists>a. Attributes dt key = Some a \<and> iface_eq a v = Inr True}"
    using FindByAttribute_scan_set [of "twins r" key v "[]" res]
    by (simp add: FindByAttribute_def)
  with res ran have "(\<exists>res. FindByAttribute r key v = Inr res
            \<and> set res = {dt \<in> ran (map_of (twins r)).
                           \<exists>a. Attributes dt key = Some a \<and> iface_eq a v = Inr True})
       \<and> set (FindByFeature r featureID) = {dt \<in> ran (map_of (twins r)). Features dt featureID \<noteq> None}"
    by (simp add: FindByFeature_def FindByFeature_scan_set)
  with basic show ?thesis by blast
qed

theorem find_exact_witness:
  "registry_ok house_registry
   \<and> \<not> comparison_panics (twins house_registry) ''manufacturer'' (VString ''ACME'')
   \<and> FindByAttribute house_registry ''manufacturer'' (VString ''ACME'') = Inr [living_twin, bedroom_twin]
   \<and> {dt \<in> ran (map_of (twins house_registry)).
         \<exists>a. Attributes dt ''manufacturer'' = Some a \<and> iface_eq a (VString ''ACME'') = Inr True}
        = {living_twin, bedroom_twin}
   \<and> FindByFeature house_registry ''temperature'' = [living_twin, bedroom_twin]
   \<and> {dt \<in> ran (map_of (twins house_registry)). Features dt ''temperature'' \<noteq> None}
        = {living_twin, bedroom_twin}"
proof -
  have ok: "registry_ok house_registry"
    by (simp add: registry_ok_def house_registry_twins)
  have np: "\<not> comparison_panics (twins house_registry) ''manufacturer'' (VString ''ACME'')"
    by (simp add: comparison_panics_def house_registry_twins house_manufacturer iface_eq_String)
  have ev: "FindByAttribute house_registry ''manufacturer'' (VString ''ACME'') = Inr [living_twin, bedroom_twin]"
    by (simp add: FindByAttribute_def house_registry_twins GetAttribute_def house_manufacturer iface_eq_String)
  have ft: "FindByFeature house_registry ''temperature'' = [living_twin, bedroom_twin]"
    by (simp add: FindByFeature_def house_registry_twins GetFeature_def house_temperature)
  note inst = find_exact [OF ok np, of "''temperature''"]
  from inst ev have a: "{dt \<in> ran (map_of (twins house_registry)).
         \<exists>a. Attributes dt ''manufacturer'' = Some a \<and> iface_eq a (VString ''ACME'') = Inr True}
        = {living_twin, bedroom_twin}"
    by auto
  from inst ft have b: "{dt \<in> ran (map_of (twins house_registry)). Features dt ''temperature'' \<noteq> None}
        = {living_twin, bedroom_twin}"
    by auto
  from ok np ev a ft b show ?thesis by blast
qed

text \<open>
  On the same registry: a prefix of a stored string matches nothing, and a float64
  query finds the twin that stores that number.
\<close>

lemma FindByAttribute_no_substring_match:
  "FindByAttribute house_registry ''manufacturer'' (VString ''ACM'') = Inr []"
  by (simp add: FindByAttribute_def house_registry_twins GetAttribute_def house_manufacturer iface_eq_String)

lemma FindByAttribute_float_query:
  "FindByAttribute house_registry ''setpoint'' (VFloat64 (Float64 False 1027 1829587348619264))
     = Inr [living_twin]"
  by (simp add: FindByAttribute_def house_registry_twins GetAttribute_def house_setpoint
      iface_eq.simps float64_eq_def)

subsection \<open>When the attribute scan panics\<close>

text \<open>
  Claim C10 fails as stated: a twin holds a slice under the queried key, yet the scan
  for a string under that key returns (the empty result); values of different dynamic
  types compare unequal without a panic.
\<close>

theorem FindByAttribute_other_type_no_panic:
  "Attributes tagged_twin ''tags'' = Some (VSlice TInterface [VString ''a''])
   \<and> \<not> comparable (dyn_type (VSlice TInterface [VString ''a'']))
   \<and> FindByAttribute tagged_registry ''tags'' (VString ''a'') = Inr []"
  by (simp add: FindByAttribute_def tagged_registry_twins GetAttribute_def tagged_twin_tags iface_eq_String)

text \<open>
  Claim C10, amended. \<open>FindByAttribute\<close> panics exactly when, for some registered twin,
  the attribute under the queried key is present and its comparison with the query value
  panics. That comparison never panics when the two dynamic types differ (the values are
  then unequal), and always panics when the stored value's dynamic type is the query
  value's and is not comparable. So a value of a non-comparable type under the key makes
  the scan panic when the query value has that same dynamic type, and the scan returns
  (the empty result) in every state where no value under the key has the query value's
  dynamic type.
\<close>

theorem FindByAttribute_panics_iff:
  "((\<exists>p. FindByAttribute r key v = Inl p) \<longleftrightarrow>
      (\<exists>dt \<in> snd ` set (twins r). \<exists>a. Attributes dt key = Some a \<and> isl (iface_eq a v)))
   \<and> (\<forall>a. dyn_type a \<noteq> dyn_type v \<longrightarrow> iface_eq a v = Inr False)
   \<and> (\<forall>a. dyn_type a = dyn_type v \<and> \<not> comparable (dyn_type a) \<longrightarrow>
          iface_eq a v = Inl (UncomparableType (dyn_type a)))
   \<and> ((\<exists>dt \<in> snd ` set (twins r). \<exists>a. Attributes dt key = Some a \<and> dyn_type a = dyn_type v
                                       \<and> \<not> comparable (dyn_type a))
        \<longrightarrow> (\<exists>p. FindByAttribute r key v = Inl p))
   \<and> ((\<forall>dt \<in> snd ` set (twins r). \<forall>a. Attributes dt key = Some a \<longrightarrow> dyn_type a \<noteq> dyn_type v)
        \<longrightarrow> FindByAttribute r key v = Inr [])"
proof -
  have iff: "(\<exists>p. FindByAttribute r key v = Inl p) \<longleftrightarrow>
      (\<exists>dt \<in> snd ` set (twins r). \<exists>a. Attributes dt key = Some a \<and> isl (iface_eq a v))"
    by (simp add: FindByAttribute_def FindByAttribute_scan_panics comparison_panics_iff)
  have same: "\<exists>p. FindByAttribute r key v = Inl p"
    if "\<exists>dt \<in> snd ` set (twins r). \<exists>a. Attributes dt key = Some a \<and> dyn_type a = dyn_type v
                                       \<and> \<not> comparable (dyn_type a)"
  proof -
    from that obtain dt a where "dt \<in> snd ` set (twins r)" "Attributes dt key = Some a"
      "dyn_type a = dyn_type v" "\<not> comparable (dyn_type a)"
      by blast
    moreover from this have "isl (iface_eq a v)"
      by (simp add: iface_eq_uncomparable)
    ultimately show ?thesis using iff by blast
  qed
  have other: "FindByAttribute r key v = Inr []"
    if d: "\<forall>dt \<in> snd ` set (twins r). \<forall>a. Attributes dt key = Some a \<longrightarrow> dyn_type a \<noteq> dyn_type v"
  proof -
    from d have "\<not> (\<exists>dt \<in> snd ` set (twins r). \<exists>a. Attributes dt key = Some a \<and> isl (iface_eq a v))"
      by (auto simp: iface_eq_differ)
    with iff obtain res where res: "FindByAttribute r key v = Inr res"
      by (cases "FindByAttribute r key v") auto
    from FindByAttribute_scan_set [of "twins r" key v "[]" res] res
    have "set res = {dt \<in> snd ` set (twins r). \<exists>a. Attributes dt key = Some a \<and> iface_eq a v = Inr True}"
      by (simp add: FindByAttribute_def)
    with d have "set res = {}"
      by (auto simp: iface_eq_differ)
    with res show ?thesis by simp
  qed
  have differ: "\<forall>a. dyn_type a \<noteq> dyn_type v \<longrightarrow> iface_eq a v = Inr False"
    by (simp add: iface_eq_differ)
  have uncomp: "\<forall>a. dyn_type a = dyn_type v \<and> \<not> comparable (dyn_type a) \<longrightarrow>
          iface_eq a v = Inl (UncomparableType (dyn_type a))"
    by (auto simp: iface_eq_uncomparable)
  from iff differ uncomp same other show ?thesis
    by blast
qed

theorem FindByAttribute_panics_iff_witness:
  "(\<exists>p. FindByAttribute tagged_registry ''tags'' (VSlice TInterface []) = Inl p)
   \<and> iface_eq (VSlice TInterface [VString ''a'']) (VSlice TInterface [])
        = Inl (UncomparableType (TSlice TInterface))
   \<and> iface_eq (VSlice TInterface [VString ''a'']) (VSlice TString []) = Inr False
   \<and> FindByAttribute tagged_registry ''tags'' (VSlice TString []) = Inr []
   \<and> FindByAttribute house_registry ''manufacturer'' (VInt 3) = Inr []"
proof -
  note slice = FindByAttribute_panics_iff [of tagged_registry "''tags''" "VSlice TInterface []"]
  note strs = FindByAttribute_panics_iff [of tagged_registry "''tags''" "VSlice TString []"]
  note num = FindByAttribute_panics_iff [of house_registry "''manufacturer''" "VInt 3"]
  have clash: "\<exists>dt \<in> snd ` set (twins tagged_registry). \<exists>a. Attributes dt ''tags'' = Some a
      \<and> dyn_type a = dyn_type (VSlice TInterface []) \<and> \<not> comparable (dyn_type a)"
    by (simp add: tagged_registry_twins tagged_twin_tags)
  from slice clash have a: "\<exists>p. FindByAttribute tagged_registry ''tags'' (VSlice TInterface []) = Inl p"
    by blast
  from slice have "dyn_type (VSlice TInterface [VString ''a'']) = dyn_type (VSlice TInterface [])
        \<and> \<not> comparable (dyn_type (VSlice TInterface [VString ''a''])) \<longrightarrow>
      iface_eq (VSlice TInterface [VString ''a'']) (VSlice TInterface [])
        = Inl (UncomparableType (dyn_type (VSlice TInterface [VString ''a''])))"
    by blast
  then have b: "iface_eq (VSlice TInterface [VString ''a'']) (VSlice TInterface [])
        = Inl (UncomparableType (TSlice TInterface))"
    by simp
  from strs have "dyn_type (VSlice TInterface [VString ''a'']) \<noteq> dyn_type (VSlice TString [])
      \<longrightarrow> iface_eq (VSlice TInterface [VString ''a'']) (VSlice TString []) = Inr False"
    by blast
  then have c: "iface_eq (VSlice TInterface [VString ''a'']) (VSlice TString []) = Inr False"
    by simp
  have d1: "\<forall>dt \<in> snd ` set (twins tagged_registry). \<forall>a. Attributes dt ''tags'' = Some a
      \<longrightarrow> dyn_type a \<noteq> dyn_type (VSlice TString [])"
    by (simp add: tagged_registry_twins tagged_twin_tags)
  from strs d1 have d: "FindByAttribute tagged_registry ''tags'' (VSlice TString []) = Inr []"
    by blast
  have e1: "\<forall>dt \<in> snd ` set (twins house_registry). \<forall>a. Attributes dt ''manufacturer'' = Some a
      \<longrightarrow> dyn_type a \<noteq> dyn_type (VInt 3)"
    by (simp add: house_registry_twins house_manufacturer)
  from num e1 have e: "FindByAttribute house_registry ''manufacturer'' (VInt 3) = Inr []"
    by blast
  from a b c d e show ?thesis by blast
qed

section \<open>FeatureState: copies and timestamps\<close>

lemma fresh_feature_eq:
  "fresh_feature = \<lparr>Properties = Some 0, DesiredProps = Some 1, Definition = [], LastModified = 1\<rparr>"
  by (simp add: fresh_feature_def NewFeatureState_def make_map_def empty_store_def)

lemma fresh_store_cells: "cells fresh_store r = Map.empty"
  by (simp add: fresh_store_def NewFeatureState_def make_map_def empty_store_def)

lemma thermo_twin_temp: "Features thermo_twin ''temp'' = Some fresh_feature"
  by (simp add: thermo_twin_def AddFeature_def NewDigitalTwin_def)

lemma thermo_write_eq:
  "thermo_write = Inr (fresh_feature\<lparr>LastModified := 3\<rparr>,
       fresh_store\<lparr>cells := (cells fresh_store)(0 := [''value'' \<mapsto> VInt 22])\<rparr>)"
  by (simp add: thermo_write_def SetProperty_def map_assign_def GetFeature_def thermo_twin_temp
      fresh_feature_eq fresh_store_cells)

text \<open>
  Claim C1 fails as stated. A twin holds the feature \<open>temp\<close>, made by
  \<open>NewFeatureState\<close>, with no property \<open>value\<close>. \<open>SetProperty\<close> on the FeatureState
  that \<open>GetFeature\<close> returned succeeds, and, with no \<open>UpdateFeature\<close>, reading
  \<open>value\<close> through the twin's stored feature now finds it: the copy and the stored
  struct hold the same map.
\<close>

theorem GetFeature_copy_shares_maps:
  "GetFeature thermo_twin ''temp'' = (fresh_feature, True)
   \<and> GetProperty (fst (GetFeature thermo_twin ''temp'')) fresh_store ''value'' = (VNil, False)
   \<and> \<not> isl thermo_write
   \<and> GetProperty (fst (GetFeature thermo_twin ''temp'')) (snd (projr thermo_write)) ''value''
        = (VInt 22, True)"
  by (simp add: thermo_write_eq GetFeature_def thermo_twin_temp GetProperty_def map_index_def
      fresh_feature_eq fresh_store_cells)

text \<open>
  Claim C1, amended. For a feature id present in a twin, \<open>GetFeature\<close> returns the stored
  struct and the flag true. The copy is shallow: when \<open>SetProperty\<close> on it returns, the
  property is at once readable through the twin's stored feature, in the one map the two
  structs share, and every other map of the store is as before. What stays with the copy
  is the struct's own fields: the stored feature keeps its LastModified and Definition,
  while the copy carries the new timestamp, until \<open>UpdateFeature\<close> stores the copy.
\<close>

theorem GetFeature_shallow_copy:
  assumes stored: "Features dt id' = Some stored"
    and wr: "SetProperty now key v (fst (GetFeature dt id')) h = Inr (copy', h')"
  shows "GetFeature dt id' = (stored, True)
       \<and> GetProperty (fst (GetFeature dt id')) h' key = (v, True)
       \<and> LastModified copy' = now
       \<and> LastModified (fst (GetFeature dt id')) = LastModified stored
       \<and> Definition (fst (GetFeature dt id')) = Definition stored
       \<and> Properties copy' = Properties stored \<and> DesiredProps copy' = DesiredProps stored
       \<and> (\<forall>r'. Some r' \<noteq> Properties stored \<longrightarrow> cells h' r' = cells h r')
       \<and> GetFeature (snd (UpdateFeature now2 id' copy' dt)) id' = (copy', True)"
proof -
  from stored have get: "GetFeature dt id' = (stored, True)"
    by (simp add: GetFeature_def)
  from wr get obtain r where r: "Properties stored = Some r"
    and h': "h' = h\<lparr>cells := (cells h)(r := (cells h r)(key \<mapsto> v))\<rparr>"
    and c: "copy' = stored\<lparr>LastModified := now\<rparr>"
    by (auto simp: SetProperty_def map_assign_def split: option.splits)
  from r h' have "GetProperty stored h' key = (v, True)"
    by (simp add: GetProperty_def map_index_def)
  moreover from stored have "GetFeature (snd (UpdateFeature now2 id' copy' dt)) id' = (copy', True)"
    by (simp add: UpdateFeature_def GetFeature_def)
  moreover from r h' have "\<forall>r'. Some r' \<noteq> Properties stored \<longrightarrow> cells h' r' = cells h r'"
    by simp
  ultimately show ?thesis
    using get c by simp
qed

theorem GetFeature_shallow_copy_witness:
  "Features thermo_twin ''temp'' = Some fresh_feature
   \<and> SetProperty 3 ''value'' (VInt 22) (fst (GetFeature thermo_twin ''temp'')) fresh_store
        = Inr (fresh_feature\<lparr>LastModified := 3\<rparr>,
               fresh_store\<lparr>cells := (cells fresh_store)(0 := [''value'' \<mapsto> VInt 22])\<rparr>)
   \<and> GetProperty (fst (GetFeature thermo_twin ''temp''))
        (fresh_store\<lparr>cells := (cells fresh_store)(0 := [''value'' \<mapsto> VInt 22])\<rparr>) ''value''
        = (VInt 22, True)
   \<and> LastModified (fst (GetFeature thermo_twin ''temp'')) = 1"
proof -
  have wr: "SetProperty 3 ''value'' (VInt 22) (fst (GetFeature thermo_twin ''temp'')) fresh_store
        = Inr (fresh_feature\<lparr>LastModified := 3\<rparr>,
               fresh_store\<lparr>cells := (cells fresh_store)(0 := [''value'' \<mapsto> VInt 22])\<rparr>)"
    using thermo_write_eq by (simp add: thermo_write_def)
  note inst = GetFeature_shallow_copy [OF thermo_twin_temp wr]
  from inst have seen: "GetProperty (fst (GetFeature thermo_twin ''temp''))
        (fresh_store\<lparr>cells := (cells fresh_store)(0 := [''value'' \<mapsto> VInt 22])\<rparr>) ''value''
        = (VInt 22, True)"
    by blast
  from inst have "LastModified (fst (GetFeature thermo_twin ''temp'')) = LastModified fresh_feature"
    by blast
  then have stamp: "LastModified (fst (GetFeature thermo_twin ''temp'')) = 1"
    by (simp add: fresh_feature_eq)
  from thermo_twin_temp wr seen stamp show ?thesis by blast
qed

text \<open>
  Claim C6 fails as stated. \<open>GetFeature\<close> on an id the twin does not hold returns the
  zero-value FeatureState, whose maps are nil; \<open>SetProperty\<close> and
  \<open>SetDesiredProperty\<close> on it panic at the map assignment, before the timestamp is
  written.
\<close>

theorem SetProperty_on_zero_value_panics:
  "GetFeature example_twin ''missing'' = (zero_FeatureState, False)
   \<and> SetProperty 5 ''value'' (VInt 1) (fst (GetFeature example_twin ''missing'')) empty_store
        = Inl AssignToNilMap
   \<and> SetDesiredProperty 5 ''value'' (VInt 1) (fst (GetFeature example_twin ''missing'')) empty_store
        = Inl AssignToNilMap"
  by (simp add: GetFeature_def example_twin_def SetAttribute_def NewDigitalTwin_def SetProperty_def
      SetDesiredProperty_def map_assign_def zero_FeatureState_def)

lemma NewFeatureState_maps:
  "Properties (fst (NewFeatureState now h)) \<noteq> None \<and> DesiredProps (fst (NewFeatureState now h)) \<noteq> None"
  by (simp add: NewFeatureState_def make_map_def)

text \<open>
  Claim C6, amended. \<open>RemoveProperty\<close>, \<open>RemoveDesiredProperty\<close> and \<open>SetDefinition\<close>
  set LastModified to the clock reading on every FeatureState. \<open>SetProperty\<close> does so on
  every FeatureState whose Properties map is not nil, and \<open>SetDesiredProperty\<close> on every
  one whose DesiredProps map is not nil, as is the case for every FeatureState made by
  \<open>NewFeatureState\<close>.
\<close>

theorem mutators_set_LastModified:
  "LastModified (fst (RemoveProperty now key fs h)) = now
   \<and> LastModified (fst (RemoveDesiredProperty now key fs h)) = now
   \<and> LastModified (FeatureState_SetDefinition now definitions fs) = now
   \<and> (Properties fs \<noteq> None \<longrightarrow>
        (\<exists>fs' h'. SetProperty now key v fs h = Inr (fs', h') \<and> LastModified fs' = now))
   \<and> (DesiredProps fs \<noteq> None \<longrightarrow>
        (\<exists>fs' h'. SetDesiredProperty now key v fs h = Inr (fs', h') \<and> LastModified fs' = now))"
  by (auto simp: RemoveProperty_def RemoveDesiredProperty_def FeatureState_SetDefinition_def
      SetProperty_def SetDesiredProperty_def map_assign_def)

theorem mutators_set_LastModified_witness:
  "Properties fresh_feature \<noteq> None \<and> DesiredProps fresh_feature \<noteq> None
   \<and> LastModified fresh_feature = 1
   \<and> (\<exists>fs' h'. SetProperty 8 ''value'' (VInt 22) fresh_feature fresh_store = Inr (fs', h')
                \<and> LastModified fs' = 8)
   \<and> (\<exists>fs' h'. SetDesiredProperty 8 ''value'' (VInt 23) fresh_feature fresh_store = Inr (fs', h')
                \<and> LastModified fs' = 8)"
proof -
  have p: "Properties fresh_feature \<noteq> None" and d: "DesiredProps fresh_feature \<noteq> None"
    and l: "LastModified fresh_feature = 1"
    by (simp_all add: fresh_feature_eq)
  note inst = mutators_set_LastModified [of 8 "''value''" fresh_feature fresh_store]
  from inst [of "[]" "VInt 22"] p
  have a: "\<exists>fs' h'. SetProperty 8 ''value'' (VInt 22) fresh_feature fresh_store = Inr (fs', h')
                \<and> LastModified fs' = 8"
    by blast
  from inst [of "[]" "VInt 23"] d
  have b: "\<exists>fs' h'. SetDesiredProperty 8 ''value'' (VInt 23) fresh_feature fresh_store = Inr (fs', h')
                \<and> LastModified fs' = 8"
    by blast
  from p d l a b show ?thesis by blast
qed

section \<open>The bus\<close>

subsection \<open>Channel handles under the map operations\<close>

lemma handles_Cons: "handles ((k, l) # al) = l @ handles al"
  by (simp add: handles_def)

lemma handles_Nil: "handles [] = []"
  by (simp add: handles_def)

lemma handles_update_subset: "set (handles (AList.update t l al)) \<subseteq> set l \<union> set (handles al)"
  by (induction al) (auto simp: handles_Cons handles_Nil)

lemma handles_delete_subset: "set (handles (AList.delete t al)) \<subseteq> set (handles al)"
  by (induction al) (auto simp: handles_Cons handles_Nil)

lemma distinct_handles_delete: "distinct (handles al) \<Longrightarrow> distinct (handles (AList.delete t al))"
proof (induction al)
  case Nil
  then show ?case by simp
next
  case (Cons e al)
  obtain k l where e: "e = (k, l)" by (cases e)
  from Cons show ?case
    using handles_delete_subset [of t al] by (auto simp: e handles_Cons)
qed

lemma map_of_handles: "map_of al t = Some l \<Longrightarrow> set l \<subseteq> set (handles al)"
  by (induction al) (auto simp: handles_Cons split: if_splits)

lemma map_of_distinct_handles: "map_of al t = Some l \<Longrightarrow> distinct (handles al) \<Longrightarrow> distinct l"
  by (induction al) (auto simp: handles_Cons split: if_splits)

lemma map_of_disjoint_rest:
  "map_of al t = Some l \<Longrightarrow> distinct (map fst al) \<Longrightarrow> distinct (handles al)
     \<Longrightarrow> set l \<inter> set (handles (AList.delete t al)) = {}"
proof (induction al)
  case Nil
  then show ?case by simp
next
  case (Cons e al)
  obtain k l' where e: "e = (k, l')" by (cases e)
  show ?case
  proof (cases "k = t")
    case True
    with Cons.prems e have "l' = l" and "t \<notin> fst ` set al" by auto
    with Cons.prems e True show ?thesis by (auto simp: handles_Cons)
  next
    case False
    with Cons.prems e have m: "map_of al t = Some l" by simp
    from Cons.prems e have d: "distinct (map fst al)" "distinct (handles al)"
      by (auto simp: handles_Cons)
    from Cons.IH [OF m d] have ih: "set l \<inter> set (handles (AList.delete t al)) = {}" .
    from map_of_handles [OF m] Cons.prems(3) e have "set l \<inter> set l' = {}"
      by (auto simp: handles_Cons)
    with ih False show ?thesis by (auto simp: e handles_Cons)
  qed
qed

lemma distinct_handles_update:
  "distinct (map fst al) \<Longrightarrow> distinct (handles al) \<Longrightarrow> distinct l
     \<Longrightarrow> set l \<inter> set (handles (AList.delete t al)) = {}
     \<Longrightarrow> distinct (handles (AList.update t l al))"
proof (induction al)
  case Nil
  then show ?case by (simp add: handles_def)
next
  case (Cons e al)
  obtain k l' where e: "e = (k, l')" by (cases e)
  show ?case
  proof (cases "k = t")
    case True
    with Cons.prems e have "t \<notin> fst ` set al" by auto
    with Cons.prems e True show ?thesis by (auto simp: handles_Cons)
  next
    case False
    from Cons.prems e False have p: "distinct (map fst al)" "distinct (handles al)" "distinct l"
      "set l \<inter> set (handles (AList.delete t al)) = {}"
      by (auto simp: handles_Cons)
    from Cons.IH [OF p] have ih: "distinct (handles (AList.update t l al))" .
    from Cons.prems e False have "set l' \<inter> set l = {}" "set l' \<inter> set (handles al) = {}" "distinct l'"
      by (auto simp: handles_Cons)
    with handles_update_subset [of t l al] ih False show ?thesis
      by (auto simp: e handles_Cons)
  qed
qed

lemma nonempty_update:
  "list_all (\<lambda>(topic, subs). subs \<noteq> []) al \<Longrightarrow> l \<noteq> []
     \<Longrightarrow> list_all (\<lambda>(topic, subs). subs \<noteq> []) (AList.update t l al)"
  by (induction al) auto

lemma nonempty_delete:
  "list_all (\<lambda>(topic, subs). subs \<noteq> []) al
     \<Longrightarrow> list_all (\<lambda>(topic, subs). subs \<noteq> []) (AList.delete t al)"
  by (induction al) auto

lemma nonempty_map_of:
  "list_all (\<lambda>(topic, subs). subs \<noteq> []) al \<Longrightarrow> map_of al t = Some l \<Longrightarrow> l \<noteq> []"
  by (induction al) (auto split: if_splits)

lemma subs_of_cases:
  "subs_of al t = [] \<and> map_of al t = None \<or> map_of al t = Some (subs_of al t)"
  by (auto simp: subs_of_def split: option.splits)

lemma subs_of_handles: "set (subs_of al t) \<subseteq> set (handles al)"
proof (cases "map_of al t")
  case None
  then show ?thesis by (simp add: subs_of_def)
next
  case (Some l)
  with map_of_handles [OF Some] show ?thesis by (simp add: subs_of_def)
qed

lemma subs_of_distinct: "distinct (handles al) \<Longrightarrow> distinct (subs_of al t)"
proof (cases "map_of al t")
  case None
  then show ?thesis by (simp add: subs_of_def)
next
  case (Some l)
  assume "distinct (handles al)"
  with map_of_distinct_handles [OF Some] Some show ?thesis by (simp add: subs_of_def)
qed

lemma subs_of_disjoint_rest:
  "distinct (map fst al) \<Longrightarrow> distinct (handles al)
     \<Longrightarrow> set (subs_of al t) \<inter> set (handles (AList.delete t al)) = {}"
proof (cases "map_of al t")
  case None
  then show ?thesis by (simp add: subs_of_def)
next
  case (Some l)
  assume "distinct (map fst al)" "distinct (handles al)"
  with map_of_disjoint_rest [OF Some] Some show ?thesis by (simp add: subs_of_def)
qed

lemma Subscribe_eq:
  "Subscribe t s =
     (next_chan s,
      s\<lparr>subscribers := AList.update t (subs_of (subscribers s) t @ [next_chan s]) (subscribers s),
        chans := (chans s)(next_chan s := \<lparr>queue = [], cap = 10, closed = False\<rparr>),
        next_chan := Suc (next_chan s)\<rparr>)"
  by (simp add: Subscribe_def make_chan_def)

lemma bus_ok_Subscribe:
  assumes "bus_ok s"
  shows "bus_ok (snd (Subscribe t s))"
proof -
  let ?n = "next_chan s" and ?al = "subscribers s"
  let ?l = "subs_of ?al t @ [?n]"
  from assms have keys: "distinct (map fst ?al)" and ne: "list_all (\<lambda>(topic, subs). subs \<noteq> []) ?al"
    and dh: "distinct (handles ?al)"
    and alloc: "\<forall>ch \<in> set (handles ?al). ch < ?n \<and> \<not> closed (chans s ch)"
    by (auto simp: bus_ok_def topics_nonempty_def list_all_iff)
  from alloc have fresh: "?n \<notin> set (handles ?al)" by auto
  with subs_of_handles [of ?al t] have "?n \<notin> set (subs_of ?al t)" by auto
  with subs_of_distinct [OF dh, of t] have dl: "distinct ?l" by simp
  from fresh handles_delete_subset [of t ?al] subs_of_disjoint_rest [OF keys dh, of t]
  have disj: "set ?l \<inter> set (handles (AList.delete t ?al)) = {}" by auto
  have 1: "distinct (map fst (AList.update t ?l ?al))"
    using keys by (rule distinct_update)
  have 2: "list_all (\<lambda>(topic, subs). subs \<noteq> []) (AList.update t ?l ?al)"
    using ne by (rule nonempty_update) simp
  have 3: "distinct (handles (AList.update t ?l ?al))"
    using keys dh dl disj by (rule distinct_handles_update)
  have 4: "\<forall>ch \<in> set (handles (AList.update t ?l ?al)).
             ch < Suc ?n \<and> \<not> closed (((chans s)(?n := \<lparr>queue = [], cap = 10, closed = False\<rparr>)) ch)"
    using handles_update_subset [of t ?l ?al] subs_of_handles [of ?al t] alloc
    by (auto simp: less_Suc_eq)
  from 1 2 3 4 show ?thesis
    by (simp add: Subscribe_eq bus_ok_def topics_nonempty_def list_all_iff)
qed


lemma Unsubscribe_absent: "map_of (subscribers s) t = None \<Longrightarrow> Unsubscribe t ch s = s"
  by (simp add: Unsubscribe_def)

lemma Unsubscribe_present:
  assumes "map_of (subscribers s) t = Some l"
  shows "Unsubscribe t ch s =
     (if ch \<in> set l
      then (if remove1 ch l = [] then s\<lparr>subscribers := AList.delete t (subscribers s)\<rparr>
            else s\<lparr>subscribers := AList.update t (remove1 ch l) (subscribers s)\<rparr>)
      else (if l = [] then s\<lparr>subscribers := AList.delete t (subscribers s)\<rparr> else s))"
  using assms
  by (simp add: Unsubscribe_def Let_def subs_of_def map_of_update_same delete_update_same)

lemma bus_ok_delete:
  assumes "bus_ok s"
  shows "bus_ok (s\<lparr>subscribers := AList.delete t (subscribers s)\<rparr>)"
proof -
  from assms have "\<forall>ch \<in> set (handles (AList.delete t (subscribers s))).
      ch < next_chan s \<and> \<not> closed (chans s ch)"
    using handles_delete_subset [of t "subscribers s"]
    by (auto simp: bus_ok_def list_all_iff)
  with assms show ?thesis
    by (simp add: bus_ok_def topics_nonempty_def distinct_delete nonempty_delete
        distinct_handles_delete list_all_iff [of _ "handles _"])
qed

lemma bus_ok_shrink:
  assumes ok: "bus_ok s" and m: "map_of (subscribers s) t = Some l"
    and sub: "set l' \<subseteq> set l" and dl: "distinct l'" and ne: "l' \<noteq> []"
  shows "bus_ok (s\<lparr>subscribers := AList.update t l' (subscribers s)\<rparr>)"
proof -
  let ?al = "subscribers s"
  from ok have keys: "distinct (map fst ?al)" and nonempty: "list_all (\<lambda>(topic, subs). subs \<noteq> []) ?al"
    and dh: "distinct (handles ?al)"
    and alloc: "\<forall>ch \<in> set (handles ?al). ch < next_chan s \<and> \<not> closed (chans s ch)"
    by (auto simp: bus_ok_def topics_nonempty_def list_all_iff)
  from map_of_disjoint_rest [OF m keys dh] sub
  have disj: "set l' \<inter> set (handles (AList.delete t ?al)) = {}" by auto
  have 1: "distinct (map fst (AList.update t l' ?al))"
    using keys by (rule distinct_update)
  have 2: "list_all (\<lambda>(topic, subs). subs \<noteq> []) (AList.update t l' ?al)"
    using nonempty ne by (rule nonempty_update)
  have 3: "distinct (handles (AList.update t l' ?al))"
    using keys dh dl disj by (rule distinct_handles_update)
  have 4: "\<forall>ch \<in> set (handles (AList.update t l' ?al)). ch < next_chan s \<and> \<not> closed (chans s ch)"
    using handles_update_subset [of t l' ?al] map_of_handles [OF m] sub alloc by auto
  from 1 2 3 4 show ?thesis
    by (simp add: bus_ok_def topics_nonempty_def list_all_iff)
qed

lemma bus_ok_Unsubscribe:
  assumes ok: "bus_ok s"
  shows "bus_ok (Unsubscribe t ch s)"
proof (cases "map_of (subscribers s) t")
  case None
  with ok show ?thesis by (simp add: Unsubscribe_absent)
next
  case (Some l)
  from ok have dh: "distinct (handles (subscribers s))" by (simp add: bus_ok_def)
  from map_of_distinct_handles [OF Some dh] have dl: "distinct (remove1 ch l)" by simp
  have sub: "set (remove1 ch l) \<subseteq> set l" by (rule set_remove1_subset)
  show ?thesis
    using ok bus_ok_delete [OF ok, of t] bus_ok_shrink [OF ok Some sub dl]
    by (simp add: Unsubscribe_present [OF Some])
qed

lemma send_all_effect:
  assumes "distinct l" and "\<forall>c \<in> set l. \<not> closed (chans s c)"
  shows "\<exists>s'. send_all l msg s = Inr s' \<and> subscribers s' = subscribers s
           \<and> next_chan s' = next_chan s
           \<and> (\<forall>c. chans s' c =
                 (if c \<in> set l \<and> length (queue (chans s c)) < cap (chans s c)
                  then (chans s c)\<lparr>queue := queue (chans s c) @ [msg]\<rparr> else chans s c))"
  using assms
proof (induction l arbitrary: s)
  case Nil
  then show ?case by simp
next
  case (Cons ch l)
  let ?s1 = "if length (queue (chans s ch)) < cap (chans s ch)
             then s\<lparr>chans := (chans s)(ch := (chans s ch)\<lparr>queue := queue (chans s ch) @ [msg]\<rparr>)\<rparr>
             else s"
  from Cons.prems have step: "try_send ch msg s = Inr ?s1"
    by (simp add: try_send_def Let_def)
  from Cons.prems have d: "distinct l" and notin: "ch \<notin> set l"
    and op: "\<forall>c \<in> set l. \<not> closed (chans ?s1 c)"
    by auto
  from Cons.IH [OF d op] obtain s' where s': "send_all l msg ?s1 = Inr s'"
    "subscribers s' = subscribers ?s1" "next_chan s' = next_chan ?s1"
    "\<forall>c. chans s' c =
        (if c \<in> set l \<and> length (queue (chans ?s1 c)) < cap (chans ?s1 c)
         then (chans ?s1 c)\<lparr>queue := queue (chans ?s1 c) @ [msg]\<rparr> else chans ?s1 c)"
    by blast
  from step s'(1) have "send_all (ch # l) msg s = Inr s'" by simp
  moreover from s'(2,3) have "subscribers s' = subscribers s" "next_chan s' = next_chan s"
    by (simp_all split: if_splits)
  moreover from s'(4) notin
  have "\<forall>c. chans s' c =
          (if c \<in> set (ch # l) \<and> length (queue (chans s c)) < cap (chans s c)
           then (chans s c)\<lparr>queue := queue (chans s c) @ [msg]\<rparr> else chans s c)"
    by auto
  ultimately show ?case by blast
qed

lemma Publish_effect:
  assumes ok: "bus_ok s"
  shows "\<exists>s'. Publish t p s = Inr s' \<and> subscribers s' = subscribers s
           \<and> next_chan s' = next_chan s
           \<and> (\<forall>c. chans s' c =
                 (if c \<in> set (subs_of (subscribers s) t) \<and> length (queue (chans s c)) < cap (chans s c)
                  then (chans s c)\<lparr>queue := queue (chans s c) @ [\<lparr>Topic = t, Payload = p\<rparr>]\<rparr>
                  else chans s c))"
proof (cases "map_of (subscribers s) t")
  case None
  then show ?thesis by (simp add: Publish_def subs_of_def)
next
  case (Some l)
  from ok have dh: "distinct (handles (subscribers s))"
    and alloc: "\<forall>ch \<in> set (handles (subscribers s)). \<not> closed (chans s ch)"
    by (auto simp: bus_ok_def list_all_iff)
  from map_of_distinct_handles [OF Some dh] have dl: "distinct l" .
  from map_of_handles [OF Some] alloc have op: "\<forall>c \<in> set l. \<not> closed (chans s c)" by auto
  from send_all_effect [OF dl op, of "\<lparr>Topic = t, Payload = p\<rparr>"] Some show ?thesis
    by (simp add: Publish_def subs_of_def)
qed

lemma bus_ok_chans:
  assumes "bus_ok s" and "subscribers s' = subscribers s" and "next_chan s' = next_chan s"
    and "\<forall>c. closed (chans s' c) = closed (chans s c)"
  shows "bus_ok s'"
  using assms by (simp add: bus_ok_def topics_nonempty_def list_all_iff)

lemma bus_ok_Publish:
  assumes ok: "bus_ok s" and p: "Publish t p s = Inr s'"
  shows "bus_ok s'"
proof -
  from Publish_effect [OF ok, of t p] p
  have "subscribers s' = subscribers s" "next_chan s' = next_chan s"
    "\<forall>c. closed (chans s' c) = closed (chans s c)"
    by auto
  with ok show ?thesis by (rule bus_ok_chans)
qed


lemma close_all_effect:
  assumes "distinct l" and "\<forall>c \<in> set l. \<not> closed (chans s c)"
  shows "\<exists>s'. close_all l s = Inr s' \<and> subscribers s' = subscribers s
           \<and> next_chan s' = next_chan s
           \<and> (\<forall>c. chans s' c = (if c \<in> set l then (chans s c)\<lparr>closed := True\<rparr> else chans s c))"
  using assms
proof (induction l arbitrary: s)
  case Nil
  then show ?case by simp
next
  case (Cons ch l)
  let ?s1 = "s\<lparr>chans := (chans s)(ch := (chans s ch)\<lparr>closed := True\<rparr>)\<rparr>"
  from Cons.prems have step: "close_chan ch s = Inr ?s1"
    by (simp add: close_chan_def)
  from Cons.prems have d: "distinct l" and notin: "ch \<notin> set l"
    and op: "\<forall>c \<in> set l. \<not> closed (chans ?s1 c)"
    by auto
  from Cons.IH [OF d op] obtain s' where s': "close_all l ?s1 = Inr s'"
    "subscribers s' = subscribers ?s1" "next_chan s' = next_chan ?s1"
    "\<forall>c. chans s' c = (if c \<in> set l then (chans ?s1 c)\<lparr>closed := True\<rparr> else chans ?s1 c)"
    by blast
  from step s'(1) have "close_all (ch # l) s = Inr s'" by simp
  moreover from s'(2,3) have "subscribers s' = subscribers s" "next_chan s' = next_chan s"
    by simp_all
  moreover from s'(4) notin
  have "\<forall>c. chans s' c = (if c \<in> set (ch # l) then (chans s c)\<lparr>closed := True\<rparr> else chans s c)"
    by auto
  ultimately show ?case by blast
qed

lemma set_delete: "set (AList.delete k al) = {e \<in> set al. fst e \<noteq> k}"
  by (induction al) auto

lemma Close_range_effect:
  assumes "distinct (handles al)" and "\<forall>c \<in> set (handles al). \<not> closed (chans s c)"
  shows "\<exists>s'. Close_range al s = Inr s'
           \<and> set (subscribers s') = {e \<in> set (subscribers s). fst e \<notin> fst ` set al}
           \<and> next_chan s' = next_chan s
           \<and> (\<forall>c. chans s' c = (if c \<in> set (handles al) then (chans s c)\<lparr>closed := True\<rparr> else chans s c))"
  using assms
proof (induction al arbitrary: s)
  case Nil
  then show ?case by (simp add: handles_Nil)
next
  case (Cons e al)
  obtain t l where e: "e = (t, l)" by (cases e)
  from Cons.prems e have dl: "distinct l" and dr: "distinct (handles al)"
    and disj: "set l \<inter> set (handles al) = {}"
    and opl: "\<forall>c \<in> set l. \<not> closed (chans s c)"
    and opr: "\<forall>c \<in> set (handles al). \<not> closed (chans s c)"
    by (auto simp: handles_Cons)
  from close_all_effect [OF dl opl] obtain s1 where s1: "close_all l s = Inr s1"
    "subscribers s1 = subscribers s" "next_chan s1 = next_chan s"
    "\<forall>c. chans s1 c = (if c \<in> set l then (chans s c)\<lparr>closed := True\<rparr> else chans s c)"
    by blast
  let ?s2 = "s1\<lparr>subscribers := AList.delete t (subscribers s1)\<rparr>"
  from s1(4) disj opr have op2: "\<forall>c \<in> set (handles al). \<not> closed (chans ?s2 c)"
    by auto
  from Cons.IH [OF dr op2] obtain s' where s': "Close_range al ?s2 = Inr s'"
    "set (subscribers s') = {e \<in> set (subscribers ?s2). fst e \<notin> fst ` set al}"
    "next_chan s' = next_chan ?s2"
    "\<forall>c. chans s' c = (if c \<in> set (handles al) then (chans ?s2 c)\<lparr>closed := True\<rparr> else chans ?s2 c)"
    by blast
  from s1(1) s'(1) have "Close_range (e # al) s = Inr s'" by (simp add: e)
  moreover from s'(2) s1(2)
  have "set (subscribers s') = {x \<in> set (subscribers s). fst x \<notin> fst ` set (e # al)}"
    by (auto simp: e set_delete)
  moreover from s'(3) s1(3) have "next_chan s' = next_chan s" by simp
  moreover from s'(4) s1(4)
  have "\<forall>c. chans s' c = (if c \<in> set (handles (e # al)) then (chans s c)\<lparr>closed := True\<rparr> else chans s c)"
    by (auto simp: e handles_Cons)
  ultimately show ?case by blast
qed

lemma Close_effect:
  assumes ok: "bus_ok s"
  shows "\<exists>s'. Close s = Inr s' \<and> subscribers s' = [] \<and> bus_ok s'
           \<and> (\<forall>c \<in> set (handles (subscribers s)). closed (chans s' c))"
proof -
  from ok have dh: "distinct (handles (subscribers s))"
    and op: "\<forall>c \<in> set (handles (subscribers s)). \<not> closed (chans s c)"
    by (auto simp: bus_ok_def list_all_iff)
  from Close_range_effect [OF dh op] obtain s' where s': "Close_range (subscribers s) s = Inr s'"
    "set (subscribers s') = {e \<in> set (subscribers s). fst e \<notin> fst ` set (subscribers s)}"
    "\<forall>c. chans s' c = (if c \<in> set (handles (subscribers s)) then (chans s c)\<lparr>closed := True\<rparr> else chans s c)"
    by blast
  from s'(2) have "set (subscribers s') = {}" by auto
  then have empty: "subscribers s' = []" by simp
  then have "bus_ok s'" by (simp add: bus_ok_def topics_nonempty_def handles_Nil)
  with s'(1,3) empty show ?thesis by (auto simp: Close_def)
qed

lemma topic_entry_iff:
  assumes "bus_ok s"
  shows "map_of (subscribers s) t \<noteq> None \<longleftrightarrow> subs_of (subscribers s) t \<noteq> []"
proof (cases "map_of (subscribers s) t")
  case None
  then show ?thesis by (simp add: subs_of_def)
next
  case (Some l)
  from assms have "list_all (\<lambda>(topic, subs). subs \<noteq> []) (subscribers s)"
    by (simp add: bus_ok_def topics_nonempty_def)
  from nonempty_map_of [OF this Some] Some show ?thesis by (simp add: subs_of_def)
qed

lemma bus_ok_NewPubSub: "bus_ok NewPubSub"
  by (simp add: bus_ok_def NewPubSub_def topics_nonempty_def handles_def)

lemma example_bus_subscribers: "subscribers example_bus = [(''twin.created'', [0])]"
  by (simp add: example_bus_def Subscribe_eq NewPubSub_def subs_of_def)

lemma bus_ok_example_bus: "bus_ok example_bus"
  unfolding example_bus_def using bus_ok_NewPubSub by (rule bus_ok_Subscribe)

lemma take_after_send:
  assumes "length q \<le> n"
  shows "take n ((if length q < n then q @ [m] else q) @ rest) = take n (q @ m # rest)"
proof (cases "length q < n")
  case True
  then show ?thesis by simp
next
  case False
  with assms have "length q = n" by simp
  then show ?thesis by simp
qed

lemma Publish_each_effect:
  assumes "bus_ok s" and "ch \<in> set (subs_of (subscribers s) t)"
    and "length (queue (chans s ch)) \<le> cap (chans s ch)"
  shows "\<exists>s'. Publish_each t payloads s = Inr s' \<and> subscribers s' = subscribers s \<and> bus_ok s'
           \<and> queue (chans s' ch)
                = take (cap (chans s ch))
                    (queue (chans s ch) @ map (\<lambda>p. \<lparr>Topic = t, Payload = p\<rparr>) payloads)"
  using assms
proof (induction payloads arbitrary: s)
  case Nil
  then show ?case by simp
next
  case (Cons p payloads)
  let ?c = "chans s ch" and ?m = "\<lparr>Topic = t, Payload = p\<rparr>"
  from Publish_effect [OF Cons.prems(1), of t p] obtain s1 where s1: "Publish t p s = Inr s1"
    "subscribers s1 = subscribers s"
    "\<forall>c. chans s1 c =
        (if c \<in> set (subs_of (subscribers s) t) \<and> length (queue (chans s c)) < cap (chans s c)
         then (chans s c)\<lparr>queue := queue (chans s c) @ [?m]\<rparr> else chans s c)"
    by blast
  from s1(3) Cons.prems(2)
  have c1: "chans s1 ch = (if length (queue ?c) < cap ?c then ?c\<lparr>queue := queue ?c @ [?m]\<rparr> else ?c)"
    by simp
  then have cap1: "cap (chans s1 ch) = cap ?c"
    and q1: "queue (chans s1 ch) = (if length (queue ?c) < cap ?c then queue ?c @ [?m] else queue ?c)"
    by simp_all
  from q1 cap1 Cons.prems(3) have len1: "length (queue (chans s1 ch)) \<le> cap (chans s1 ch)"
    by auto
  from bus_ok_Publish [OF Cons.prems(1) s1(1)] have ok1: "bus_ok s1" .
  from Cons.prems(2) s1(2) have in1: "ch \<in> set (subs_of (subscribers s1) t)" by simp
  from Cons.IH [OF ok1 in1 len1] obtain s' where s': "Publish_each t payloads s1 = Inr s'"
    "subscribers s' = subscribers s1" "bus_ok s'"
    "queue (chans s' ch)
       = take (cap (chans s1 ch))
           (queue (chans s1 ch) @ map (\<lambda>p. \<lparr>Topic = t, Payload = p\<rparr>) payloads)"
    by blast
  from s'(4) have "queue (chans s' ch)
       = take (cap ?c) (queue ?c @ ?m # map (\<lambda>p. \<lparr>Topic = t, Payload = p\<rparr>) payloads)"
    unfolding cap1 q1 using Cons.prems(3) by (simp only: take_after_send)
  with s1(1,2) s'(1,2,3) show ?case by simp
qed

subsection \<open>The invariant of the subscriptions map\<close>

text \<open>
  Claim C5. In every state the bus reaches, a topic has an entry in the map exactly when
  it has at least one subscriber queue, and each operation keeps it so: \<open>Subscribe\<close>
  leaves the topic with its former queues followed by the new one; \<open>Unsubscribe\<close> of the
  only queue of a topic removes the topic's entry, and on an unknown topic or a handle
  the topic does not list it changes nothing; \<open>Publish\<close> returns with the map as it
  was; \<open>Close\<close> returns with the map empty.
\<close>

theorem bus_invariant_preserved:
  assumes ok: "bus_ok s"
  shows "(map_of (subscribers s) t \<noteq> None \<longleftrightarrow> subs_of (subscribers s) t \<noteq> [])
       \<and> bus_ok (snd (Subscribe t s))
       \<and> map_of (subscribers (snd (Subscribe t s))) t
            = Some (subs_of (subscribers s) t @ [fst (Subscribe t s)])
       \<and> bus_ok (Unsubscribe t ch s)
       \<and> (map_of (subscribers s) t = Some [ch] \<longrightarrow> map_of (subscribers (Unsubscribe t ch s)) t = None)
       \<and> (map_of (subscribers s) t = None \<longrightarrow> Unsubscribe t ch s = s)
       \<and> (ch \<notin> set (subs_of (subscribers s) t) \<longrightarrow> Unsubscribe t ch s = s)
       \<and> (\<exists>s'. Publish t p s = Inr s' \<and> subscribers s' = subscribers s \<and> bus_ok s')
       \<and> (\<exists>s'. Close s = Inr s' \<and> subscribers s' = [] \<and> bus_ok s')"
proof -
  have sub: "map_of (subscribers (snd (Subscribe t s))) t
            = Some (subs_of (subscribers s) t @ [fst (Subscribe t s)])"
    by (simp add: Subscribe_eq map_of_update_same)
  have last: "map_of (subscribers (Unsubscribe t ch s)) t = None" if "map_of (subscribers s) t = Some [ch]"
    using that by (simp add: Unsubscribe_present [OF that] delete_conv')
  have unmatched: "Unsubscribe t ch s = s" if "ch \<notin> set (subs_of (subscribers s) t)"
  proof (cases "map_of (subscribers s) t")
    case None
    then show ?thesis by (rule Unsubscribe_absent)
  next
    case (Some l)
    with topic_entry_iff [OF ok, of t] that show ?thesis
      by (simp add: Unsubscribe_present [OF Some] subs_of_def)
  qed
  from Publish_effect [OF ok, of t p] obtain s1 where s1: "Publish t p s = Inr s1"
    "subscribers s1 = subscribers s"
    by blast
  with bus_ok_Publish [OF ok s1(1)]
  have pub: "\<exists>s'. Publish t p s = Inr s' \<and> subscribers s' = subscribers s \<and> bus_ok s'"
    by blast
  from Close_effect [OF ok]
  have cl: "\<exists>s'. Close s = Inr s' \<and> subscribers s' = [] \<and> bus_ok s'"
    by blast
  from topic_entry_iff [OF ok, of t] bus_ok_Subscribe [OF ok, of t] sub bus_ok_Unsubscribe [OF ok, of t ch]
    last Unsubscribe_absent [of s t ch] unmatched pub cl
  show ?thesis by blast
qed


theorem bus_invariant_preserved_witness:
  "bus_ok example_bus
   \<and> map_of (subscribers example_bus) ''twin.created'' = Some [0]
   \<and> map_of (subscribers (Unsubscribe ''twin.created'' 0 example_bus)) ''twin.created'' = None
   \<and> map_of (subscribers example_bus) ''twin.deleted'' = None
   \<and> Unsubscribe ''twin.deleted'' 0 example_bus = example_bus
   \<and> 5 \<notin> set (subs_of (subscribers example_bus) ''twin.created'')
   \<and> Unsubscribe ''twin.created'' 5 example_bus = example_bus
   \<and> (\<exists>s'. Publish ''twin.created'' (VInt 1) example_bus = Inr s' \<and> subscribers s' = subscribers example_bus)
   \<and> (\<exists>s'. Close example_bus = Inr s' \<and> subscribers s' = [])"
proof -
  have a: "map_of (subscribers example_bus) ''twin.created'' = Some [0]"
    by (simp add: example_bus_subscribers)
  have b: "map_of (subscribers example_bus) ''twin.deleted'' = None"
    by (simp add: example_bus_subscribers)
  have c: "5 \<notin> set (subs_of (subscribers example_bus) ''twin.created'')"
    by (simp add: example_bus_subscribers subs_of_def)
  note one = bus_invariant_preserved [OF bus_ok_example_bus, of "''twin.created''" 0 "VInt 1"]
  note two = bus_invariant_preserved [OF bus_ok_example_bus, of "''twin.deleted''" 0 "VInt 1"]
  note three = bus_invariant_preserved [OF bus_ok_example_bus, of "''twin.created''" 5 "VInt 1"]
  from one a have r1: "map_of (subscribers (Unsubscribe ''twin.created'' 0 example_bus)) ''twin.created'' = None"
    by blast
  from two b have r2: "Unsubscribe ''twin.deleted'' 0 example_bus = example_bus"
    by blast
  from three c have r3: "Unsubscribe ''twin.created'' 5 example_bus = example_bus"
    by blast
  from one have r4: "\<exists>s'. Publish ''twin.created'' (VInt 1) example_bus = Inr s'
      \<and> subscribers s' = subscribers example_bus"
    by blast
  from one have r5: "\<exists>s'. Close example_bus = Inr s' \<and> subscribers s' = []"
    by blast
  from bus_ok_example_bus a b c r1 r2 r3 r4 r5 show ?thesis by blast
qed

subsection \<open>Delivery to a new subscription\<close>

lemma first_ten_of_twelve: "take 10 (map (\<lambda>p. \<lparr>Topic = ''twin.created'', Payload = p\<rparr>) (map VInt [1..12]))
   = map (\<lambda>i. \<lparr>Topic = ''twin.created'', Payload = VInt i\<rparr>) [1..10]"
  by (simp add: upto.simps)

text \<open>
  Claim C2. After \<open>Subscribe\<close> on a topic, a run of \<open>Publish\<close> calls on that topic,
  with no receive in between, returns, and the queue of the new subscription holds the
  first ten messages of the run in publish order: all of them when there are at most
  ten, and none of those after the tenth.
\<close>

theorem subscribe_then_publish:
  assumes ok: "bus_ok s"
  shows "\<exists>s'. Publish_each t payloads (snd (Subscribe t s)) = Inr s'
           \<and> queue (chans s' (fst (Subscribe t s)))
                = take 10 (map (\<lambda>p. \<lparr>Topic = t, Payload = p\<rparr>) payloads)
           \<and> (length payloads \<le> 10 \<longrightarrow>
                queue (chans s' (fst (Subscribe t s)))
                  = map (\<lambda>p. \<lparr>Topic = t, Payload = p\<rparr>) payloads)"
proof -
  let ?ch = "fst (Subscribe t s)" and ?s1 = "snd (Subscribe t s)"
  have ok1: "bus_ok ?s1" using ok by (rule bus_ok_Subscribe)
  have in1: "?ch \<in> set (subs_of (subscribers ?s1) t)"
    by (simp add: Subscribe_eq subs_of_def map_of_update_same)
  have c1: "chans ?s1 ?ch = \<lparr>queue = [], cap = 10, closed = False\<rparr>"
    by (simp add: Subscribe_eq)
  then have len1: "length (queue (chans ?s1 ?ch)) \<le> cap (chans ?s1 ?ch)" by simp
  from Publish_each_effect [OF ok1 in1 len1, of payloads] c1 show ?thesis
    by auto
qed

theorem subscribe_then_publish_witness:
  "bus_ok NewPubSub
   \<and> (\<exists>s'. Publish_each ''twin.created'' [VInt 1, VInt 2] (snd (Subscribe ''twin.created'' NewPubSub)) = Inr s'
          \<and> queue (chans s' (fst (Subscribe ''twin.created'' NewPubSub)))
               = [\<lparr>Topic = ''twin.created'', Payload = VInt 1\<rparr>, \<lparr>Topic = ''twin.created'', Payload = VInt 2\<rparr>])
   \<and> (\<exists>s'. Publish_each ''twin.created'' (map VInt [1..12]) (snd (Subscribe ''twin.created'' NewPubSub)) = Inr s'
          \<and> queue (chans s' (fst (Subscribe ''twin.created'' NewPubSub)))
               = map (\<lambda>i. \<lparr>Topic = ''twin.created'', Payload = VInt i\<rparr>) [1..10])"
proof -
  from subscribe_then_publish [OF bus_ok_NewPubSub, of "''twin.created''" "[VInt 1, VInt 2]"]
  obtain s' where "Publish_each ''twin.created'' [VInt 1, VInt 2] (snd (Subscribe ''twin.created'' NewPubSub)) = Inr s'"
    and "length [VInt 1, VInt 2] \<le> 10 \<longrightarrow> queue (chans s' (fst (Subscribe ''twin.created'' NewPubSub)))
          = map (\<lambda>p. \<lparr>Topic = ''twin.created'', Payload = p\<rparr>) [VInt 1, VInt 2]"
    by blast
  then have few: "\<exists>s'. Publish_each ''twin.created'' [VInt 1, VInt 2] (snd (Subscribe ''twin.created'' NewPubSub)) = Inr s'
          \<and> queue (chans s' (fst (Subscribe ''twin.created'' NewPubSub)))
               = [\<lparr>Topic = ''twin.created'', Payload = VInt 1\<rparr>, \<lparr>Topic = ''twin.created'', Payload = VInt 2\<rparr>]"
    by auto
  from subscribe_then_publish [OF bus_ok_NewPubSub, of "''twin.created''" "map VInt [1..12]"]
  obtain s2 where "Publish_each ''twin.created'' (map VInt [1..12]) (snd (Subscribe ''twin.created'' NewPubSub)) = Inr s2"
    and "queue (chans s2 (fst (Subscribe ''twin.created'' NewPubSub)))
          = take 10 (map (\<lambda>p. \<lparr>Topic = ''twin.created'', Payload = p\<rparr>) (map VInt [1..12]))"
    by blast
  then have many: "\<exists>s'. Publish_each ''twin.created'' (map VInt [1..12]) (snd (Subscribe ''twin.created'' NewPubSub)) = Inr s'
          \<and> queue (chans s' (fst (Subscribe ''twin.created'' NewPubSub)))
               = map (\<lambda>i. \<lparr>Topic = ''twin.created'', Payload = VInt i\<rparr>) [1..10]"
    unfolding first_ten_of_twelve by blast
  from bus_ok_NewPubSub few many show ?thesis by blast
qed

end
